theory Spec2Isabelle
  imports Complex_Main "HOL-Library.Word"
begin

unbundle bit_operations_syntax

section \<open>Values, matrices and faults\<close>

text \<open>
  HPM.cpp moves single-precision samples between files, host arrays and matrices and, in
  other places, computes with them. Where only the movement of samples matters (the .dmb
  container, the joint-bilateral post-pass, the hypothesis reload) a sample is its IEEE-754
  binary32 bit pattern, so that "the same value" means the same 32 bits. Where the code
  computes (camera rescaling, depth range, support points, plane fitting) numbers are
  \<open>real\<close>: rounding of single precision is not modelled there.
\<close>

type_synonym int32 = "32 word"
type_synonym float32 = "32 word"

definition isnan :: "float32 \<Rightarrow> bool" where
  "isnan x \<longleftrightarrow> x AND 0x7F800000 = 0x7F800000 \<and> x AND 0x007FFFFF \<noteq> 0"

definition isfinite :: "float32 \<Rightarrow> bool" where
  "isfinite x \<longleftrightarrow> x AND 0x7F800000 \<noteq> 0x7F800000"

definition iszero :: "float32 \<Rightarrow> bool" where
  "iszero x \<longleftrightarrow> x AND 0x7FFFFFFF = 0"

text \<open>The C++ operator \<open>!=\<close> on two floats: unordered operands differ, and the two zeros
  are equal.\<close>

definition float_ne :: "float32 \<Rightarrow> float32 \<Rightarrow> bool" where
  "float_ne a b \<longleftrightarrow> isnan a \<or> isnan b \<or> (a \<noteq> b \<and> \<not> (iszero a \<and> iszero b))"

text \<open>CUDA's \<open>float4\<close>.\<close>

datatype 'a float4 = make_float4 (f4x: 'a) (f4y: 'a) (f4z: 'a) (f4w: 'a)

text \<open>
  \<open>cv::Mat_\<close>: the dimensions and the samples, row-major and continuous; a matrix of
  \<open>cv::Vec3f\<close> stores the three channels of a pixel next to each other. A default
  constructed matrix is empty.
\<close>

record 'a mat =
  mrows :: int
  mcols :: int
  mdata :: "'a list"

definition empty_mat :: "'a mat" where
  "empty_mat = \<lparr>mrows = 0, mcols = 0, mdata = []\<rparr>"

text \<open>What stops a call instead of letting it return: undefined behaviour of C++ and
  exceptions thrown by the matrix library, none of which HPM.cpp catches.\<close>

datatype fault =
    NullFile          \<comment> \<open>\<open>fwrite\<close> on the null stream of a failed \<open>fopen\<close>\<close>
  | UninitRead        \<comment> \<open>use of a header field that no \<open>fread\<close> has set\<close>
  | CvException       \<comment> \<open>the matrix library rejects its arguments\<close>
  | BufferOverrun     \<comment> \<open>\<open>fread\<close>/\<open>fwrite\<close> past the end of the sample buffer\<close>
  | OutOfRange        \<comment> \<open>an element access outside a matrix or an array\<close>
  | DivByZero         \<comment> \<open>integer division by zero\<close>
  | NotFinite         \<comment> \<open>a \<open>float\<close> division by zero: the result is no real number\<close>

text \<open>\<open>m(r, c)\<close> on a one-channel matrix and \<open>m(r, c)[k]\<close> on a three-channel one.\<close>

definition mat_at :: "'a mat \<Rightarrow> int \<Rightarrow> int \<Rightarrow> 'a option" where
  "mat_at m r c =
     (if 0 \<le> r \<and> r < mrows m \<and> 0 \<le> c \<and> c < mcols m \<and> nat (r * mcols m + c) < length (mdata m)
      then Some (mdata m ! nat (r * mcols m + c)) else None)"

definition mat_at3 :: "'a mat \<Rightarrow> int \<Rightarrow> int \<Rightarrow> nat \<Rightarrow> 'a option" where
  "mat_at3 m r c k =
     (if 0 \<le> r \<and> r < mrows m \<and> 0 \<le> c \<and> c < mcols m \<and> k < 3 \<and>
         nat ((r * mcols m + c) * 3) + k < length (mdata m)
      then Some (mdata m ! (nat ((r * mcols m + c) * 3) + k)) else None)"

text \<open>Writing \<open>m(r, c) = v\<close> and \<open>m(r, c)[k] = v\<close>.\<close>

definition mat_set :: "'a mat \<Rightarrow> int \<Rightarrow> int \<Rightarrow> 'a \<Rightarrow> 'a mat option" where
  "mat_set m r c v =
     (if 0 \<le> r \<and> r < mrows m \<and> 0 \<le> c \<and> c < mcols m \<and> nat (r * mcols m + c) < length (mdata m)
      then Some (m\<lparr>mdata := (mdata m)[nat (r * mcols m + c) := v]\<rparr>) else None)"

definition mat_set3 :: "'a mat \<Rightarrow> int \<Rightarrow> int \<Rightarrow> nat \<Rightarrow> 'a \<Rightarrow> 'a mat option" where
  "mat_set3 m r c k v =
     (if 0 \<le> r \<and> r < mrows m \<and> 0 \<le> c \<and> c < mcols m \<and> k < 3 \<and>
         nat ((r * mcols m + c) * 3) + k < length (mdata m)
      then Some (m\<lparr>mdata := (mdata m)[nat ((r * mcols m + c) * 3) + k := v]\<rparr>) else None)"

text \<open>Statements in sequence, the first fault ending the call; an access that may be out of
  range; and the loop \<open>for (i = 0; i < n; ++i) body\<close>.\<close>

definition then_do :: "fault + 'a \<Rightarrow> ('a \<Rightarrow> fault + 'b) \<Rightarrow> fault + 'b" where
  "then_do r f = (case r of Inl e \<Rightarrow> Inl e | Inr x \<Rightarrow> f x)"

definition in_range :: "'a option \<Rightarrow> fault + 'a" where
  "in_range v = (case v of None \<Rightarrow> Inl OutOfRange | Some x \<Rightarrow> Inr x)"

definition for_range :: "nat \<Rightarrow> (nat \<Rightarrow> 's \<Rightarrow> fault + 's) \<Rightarrow> 's \<Rightarrow> fault + 's" where
  "for_range n body s = fold (\<lambda>i r. then_do r (body i)) [0..<n] (Inr s)"

text \<open>Division of two \<open>int\<close>s in C++ truncates towards zero.\<close>

definition tdiv :: "int \<Rightarrow> int \<Rightarrow> int" where
  "tdiv a b = (if (a < 0) = (b < 0) then \<bar>a\<bar> div \<bar>b\<bar> else - (\<bar>a\<bar> div \<bar>b\<bar>))"

section \<open>The binary depth-map container\<close>

text \<open>
  Every \<open>fread\<close> and \<open>fwrite\<close> of HPM.cpp transfers items of four bytes in the machine's own
  byte order, so a file is the list of its 4-byte cells. \<open>writable\<close> says whether
  \<open>fopen(path, "wb")\<close> succeeds.
\<close>

record filesys =
  files :: "string \<rightharpoonup> 32 word list"
  writable :: "string \<Rightarrow> bool"

text \<open>An \<open>int32_t\<close> item count passed where \<open>size_t\<close> (64 bits) is expected.\<close>

definition size_t_of :: "int32 \<Rightarrow> nat" where
  "size_t_of n = nat (sint n mod 2 ^ 64)"

text \<open>
  \<open>readDepthDmb\<close> and \<open>readNormalDmb\<close> differ in the matrix type only: \<open>ch\<close> is the number of
  floats that \<open>cv::Mat::zeros(h, w, ...)\<close> allocates per pixel (1 for \<open>CV_32F\<close>, 3 for
  \<open>CV_32FC3\<close>). \<open>type\<close> starts as -1, so a file without a first cell fails the tag test;
  \<open>h\<close>, \<open>w\<close> and \<open>nb\<close> have no initial value. \<open>cv::Mat::zeros\<close> throws on a negative
  dimension. \<open>h * w * nb\<close> is computed in 32 bits (written here as wrapping). \<open>fread\<close> stores
  as many samples as the file still has, up to the count it is given, in a buffer of
  \<open>h * w * ch\<close> samples.
\<close>

definition read_dmb :: "nat \<Rightarrow> filesys \<Rightarrow> string \<Rightarrow> float32 mat \<Rightarrow> fault + (int \<times> float32 mat)" where
  "read_dmb ch fs file_path m =
     (case files fs file_path of
        None \<Rightarrow> Inr (- 1, m)
      | Some cells \<Rightarrow>
          (case cells of
             [] \<Rightarrow> Inr (- 1, m)
           | type # hdr \<Rightarrow>
               if type \<noteq> 1 then Inr (- 1, m)
               else (case hdr of
                       h # w # nb # payload \<Rightarrow>
                         if sint h < 0 \<or> sint w < 0 then Inl CvException
                         else
                           let dataSize = h * w * nb;
                               cap = nat (sint h) * nat (sint w) * ch;
                               n = min (size_t_of dataSize) (length payload)
                           in if cap < n then Inl BufferOverrun
                              else Inr (0, \<lparr>mrows = sint h, mcols = sint w,
                                            mdata = take n payload @ replicate (cap - n) 0\<rparr>)
                     | _ \<Rightarrow> Inl UninitRead)))"

definition readDepthDmb :: "filesys \<Rightarrow> string \<Rightarrow> float32 mat \<Rightarrow> fault + (int \<times> float32 mat)" where
  "readDepthDmb = read_dmb 1"

definition readNormalDmb :: "filesys \<Rightarrow> string \<Rightarrow> float32 mat \<Rightarrow> fault + (int \<times> float32 mat)" where
  "readNormalDmb = read_dmb 3"

text \<open>
  \<open>writeDepthDmb\<close> (\<open>nb = 1\<close>) and \<open>writeNormalDmb\<close> (\<open>nb = 3\<close>). A failed \<open>fopen\<close> is
  reported and the null stream is written to all the same. \<open>fwrite\<close> takes
  \<open>w * h * nb\<close> samples from the matrix buffer.
\<close>

definition write_dmb :: "int32 \<Rightarrow> filesys \<Rightarrow> string \<Rightarrow> float32 mat \<Rightarrow> fault + (int \<times> filesys)" where
  "write_dmb nb fs file_path m =
     (if \<not> writable fs file_path then Inl NullFile
      else
        let type = 1;
            h = word_of_int (mrows m);
            w = word_of_int (mcols m);
            datasize = w * h * nb
        in if length (mdata m) < size_t_of datasize then Inl BufferOverrun
           else Inr (0, fs\<lparr>files := (files fs)(file_path \<mapsto>
                          [type, h, w, nb] @ take (size_t_of datasize) (mdata m))\<rparr>))"

definition writeDepthDmb :: "filesys \<Rightarrow> string \<Rightarrow> float32 mat \<Rightarrow> fault + (int \<times> filesys)" where
  "writeDepthDmb = write_dmb 1"

definition writeNormalDmb :: "filesys \<Rightarrow> string \<Rightarrow> float32 mat \<Rightarrow> fault + (int \<times> filesys)" where
  "writeNormalDmb = write_dmb 3"

text \<open>A matrix of \<open>ch\<close> channels whose dimensions are positive, whose sample count fits
  \<open>int32_t\<close> and whose buffer holds exactly its samples.\<close>

definition in_range_mat :: "nat \<Rightarrow> 'a mat \<Rightarrow> bool" where
  "in_range_mat ch m \<longleftrightarrow>
     0 < mrows m \<and> 0 < mcols m \<and> mrows m * mcols m * int ch < 2 ^ 31 \<and>
     length (mdata m) = nat (mrows m * mcols m * int ch)"

text \<open>Concrete files and matrices used to run the container functions.\<close>

definition all_writable :: "string \<Rightarrow> bool" where
  "all_writable p = True"

definition no_files :: filesys where
  "no_files = \<lparr>files = Map.empty, writable = all_writable\<rparr>"

definition depth_1x2 :: "float32 mat" where
  "depth_1x2 = \<lparr>mrows = 1, mcols = 2, mdata = [0x3F800000, 0x7FC00000]\<rparr>"

definition normal_1x1 :: "float32 mat" where
  "normal_1x1 = \<lparr>mrows = 1, mcols = 1, mdata = [0, 0, 0xBF800000]\<rparr>"

text \<open>A file whose header has the right tag and the height -1.\<close>

definition negative_height_fs :: filesys where
  "negative_height_fs =
     \<lparr>files = [''depths.dmb'' \<mapsto> [1, - 1, 1, 1, 0]], writable = all_writable\<rparr>"

definition good_header_fs :: filesys where
  "good_header_fs =
     \<lparr>files = [''depths.dmb'' \<mapsto> [1, 1, 2, 1, 0x3F800000, 0x40000000]],
      writable = all_writable\<rparr>"

text \<open>The two conditions under which the readers give up: the file does not open, or the
  value of \<open>type\<close> after the first \<open>fread\<close> (still -1 when the file has no cell) is not 1.\<close>

definition open_failed_or_bad_tag :: "filesys \<Rightarrow> string \<Rightarrow> bool" where
  "open_failed_or_bad_tag fs file_path \<longleftrightarrow>
     (case files fs file_path of
        None \<Rightarrow> True
      | Some cells \<Rightarrow> (case cells of [] \<Rightarrow> True | type # _ \<Rightarrow> type \<noteq> 1))"

text \<open>A file with tag 1 and a complete header of height \<open>h\<close> and width \<open>w\<close>, neither
  negative, that holds or announces no more samples than a matrix of \<open>ch\<close> channels has.\<close>

definition sound_header :: "nat \<Rightarrow> filesys \<Rightarrow> string \<Rightarrow> int \<Rightarrow> int \<Rightarrow> bool" where
  "sound_header ch fs file_path h w \<longleftrightarrow>
     (case files fs file_path of
        Some (type # hh # ww # nb # payload) \<Rightarrow>
          type = 1 \<and> sint hh = h \<and> sint ww = w \<and> 0 \<le> h \<and> 0 \<le> w \<and>
          min (size_t_of (hh * ww * nb)) (length payload) \<le> nat h * nat w * ch
      | _ \<Rightarrow> False)"

section \<open>Joint bilateral upsampling\<close>

record problem =
  ref_image_id :: int
  src_image_ids :: "int list"
  cur_image_size :: int

text \<open>\<open>std::setw(8) << std::setfill('0') << id\<close>: the decimal digits, filled with zeros on
  the left to eight characters.\<close>

function decimal :: "nat \<Rightarrow> string" where
  "decimal n = (if n < 10 then [char_of (48 + n)] else decimal (n div 10) @ [char_of (48 + n mod 10)])"
  by pat_completeness auto
termination
  by (relation "measure id") auto

definition setw8 :: "int \<Rightarrow> string" where
  "setw8 k =
     (let s = (if k < 0 then CHR ''-'' # decimal (nat (- k)) else decimal (nat k))
      in replicate (8 - length s) CHR ''0'' @ s)"

definition result_folder_id :: "string \<Rightarrow> int \<Rightarrow> string" where
  "result_folder_id dense_folder image_id =
     dense_folder @ ''/HPM_MVS_plusplus'' @ ''/2333_'' @ setw8 image_id"

definition result_folder :: "string \<Rightarrow> problem \<Rightarrow> string" where
  "result_folder dense_folder problem = result_folder_id dense_folder (ref_image_id problem)"

definition Imagescale_of :: "'a mat \<Rightarrow> 'b mat \<Rightarrow> int" where
  "Imagescale_of scaled_image_float src_depthmap =
     max (tdiv (mrows scaled_image_float) (mrows src_depthmap))
         (tdiv (mcols scaled_image_float) (mcols src_depthmap))"

text \<open>
  The body of the host loop of \<open>RunJBU\<close> at column \<open>i\<close> and row \<open>j\<close>, on the accelerator's
  result \<open>depth_h\<close> and the output buffer \<open>depthmap\<close> (\<open>rows * cols\<close> samples each are meant):
  a sample that differs from itself is replaced by \<open>src_depthmap(j / 2, i / 2)\<close>.
\<close>

definition jbu_fill ::
  "float32 mat \<Rightarrow> nat \<Rightarrow> nat \<Rightarrow> nat \<Rightarrow> float32 list \<times> float32 list \<Rightarrow>
   fault + (float32 list \<times> float32 list)" where
  "jbu_fill src_depthmap cols i j st =
     (case st of (depth_h, depthmap) \<Rightarrow>
        let center = i + cols * j in
        if length depth_h \<le> center \<or> length depthmap \<le> center then Inl OutOfRange
        else if float_ne (depth_h ! center) (depth_h ! center) then
          then_do (in_range (mat_at src_depthmap (int (j div 2)) (int (i div 2))))
            (\<lambda>v. Inr (depth_h[center := v], depthmap[center := v]))
        else Inr (depth_h, depthmap[center := depth_h ! center]))"

definition jbu_postpass ::
  "float32 mat \<Rightarrow> nat \<Rightarrow> nat \<Rightarrow> float32 list \<Rightarrow> fault + float32 mat" where
  "jbu_postpass src_depthmap rows cols depth_h =
     then_do
       (for_range cols (\<lambda>i. for_range rows (\<lambda>j. jbu_fill src_depthmap cols i j))
          (depth_h, replicate (rows * cols) 0))
       (\<lambda>(depth_h', depthmap). Inr \<lparr>mrows = int rows, mcols = int cols, mdata = depthmap\<rparr>)"

text \<open>
  \<open>RunJBU\<close>. \<open>CudaRun\<close> is the accelerator pass (HPM.cu): from the guidance image, the
  coarse map and the scale it leaves \<open>rows * cols\<close> samples in \<open>depth_h\<close>. The result goes
  to \<open>depths.dmb\<close> of the problem's result folder; with scale 1 the function returns before
  anything is computed or written. The scale is a quotient of \<open>int\<close>s: an empty coarse map
  divides by zero.
\<close>

definition RunJBU ::
  "(float32 mat \<Rightarrow> float32 mat \<Rightarrow> int \<Rightarrow> float32 list) \<Rightarrow> filesys \<Rightarrow>
   float32 mat \<Rightarrow> float32 mat \<Rightarrow> string \<Rightarrow> problem \<Rightarrow> fault + filesys" where
  "RunJBU CudaRun fs scaled_image_float src_depthmap dense_folder problem =
     (if mrows src_depthmap = 0 \<or> mcols src_depthmap = 0 then Inl DivByZero
      else
        let rows = nat (mrows scaled_image_float);
            cols = nat (mcols scaled_image_float);
            Imagescale = Imagescale_of scaled_image_float src_depthmap
        in if Imagescale = 1 then Inr fs
           else
             then_do (jbu_postpass src_depthmap rows cols
                        (CudaRun scaled_image_float src_depthmap Imagescale))
               (\<lambda>depthmap.
                  then_do (writeDepthDmb fs (result_folder dense_folder problem @ ''/depths.dmb'')
                             depthmap)
                    (\<lambda>(r, fs'). Inr fs')))"

text \<open>
  \<open>HPM::JointBilateralUpsampling_prior\<close>. The coarse normals and depths are first packed
  into \<open>normal_origin_host\<close> (allocated with \<open>new\<close>, every element assigned by the loops).
\<close>

definition pack_normal_origin ::
  "float32 mat \<Rightarrow> float32 mat \<Rightarrow> fault + float32 float4 list" where
  "pack_normal_origin src_depthmap src_normal =
     (let rows = nat (mrows src_depthmap); cols = nat (mcols src_depthmap) in
      for_range rows (\<lambda>i. for_range cols (\<lambda>j normal_origin_host.
          then_do (in_range (mat_at3 src_normal (int i) (int j) 0)) (\<lambda>x.
          then_do (in_range (mat_at3 src_normal (int i) (int j) 1)) (\<lambda>y.
          then_do (in_range (mat_at3 src_normal (int i) (int j) 2)) (\<lambda>z.
          then_do (in_range (mat_at src_depthmap (int i) (int j))) (\<lambda>w.
            Inr (normal_origin_host[i * cols + j := make_float4 x y z w])))))))
        (replicate (rows * cols) (make_float4 0 0 0 0)))"

text \<open>The four assignments \<open>upsample_depthmap(j, i) = d\<close> and
  \<open>upsample_normal(j, i)[k] = n\<^sub>k\<close>.\<close>

definition store_pixel ::
  "float32 mat \<times> float32 mat \<Rightarrow> nat \<Rightarrow> nat \<Rightarrow> float32 \<Rightarrow> float32 \<Rightarrow> float32 \<Rightarrow> float32 \<Rightarrow>
   fault + (float32 mat \<times> float32 mat)" where
  "store_pixel st j i d n0 n1 n2 =
     (case st of (upsample_depthmap, upsample_normal) \<Rightarrow>
        then_do (in_range (mat_set upsample_depthmap (int j) (int i) d)) (\<lambda>ud.
        then_do (in_range (mat_set3 upsample_normal (int j) (int i) 0 n0)) (\<lambda>un0.
        then_do (in_range (mat_set3 un0 (int j) (int i) 1 n1)) (\<lambda>un1.
        then_do (in_range (mat_set3 un1 (int j) (int i) 2 n2)) (\<lambda>un2.
          Inr (ud, un2))))))"

text \<open>
  The body of its host loop. When the accelerator's depth sample differs from itself the
  coarse depth and normal at \<open>(j / 2, i / 2)\<close> are stored; the statements after the \<open>if\<close>
  then store the accelerator's samples in the same places, in every case.
\<close>

definition jbu_prior_fill ::
  "float32 mat \<Rightarrow> float32 mat \<Rightarrow> float32 list \<Rightarrow> float32 float4 list \<Rightarrow> nat \<Rightarrow> nat \<Rightarrow> nat \<Rightarrow>
   float32 mat \<times> float32 mat \<Rightarrow> fault + (float32 mat \<times> float32 mat)" where
  "jbu_prior_fill src_depthmap src_normal depth_h normal_h cols i j st =
     (let center = i + cols * j in
      if length depth_h \<le> center \<or> length normal_h \<le> center then Inl OutOfRange
      else
        then_do
          (if float_ne (depth_h ! center) (depth_h ! center) then
             then_do (in_range (mat_at src_depthmap (int (j div 2)) (int (i div 2)))) (\<lambda>d.
             then_do (in_range (mat_at3 src_normal (int (j div 2)) (int (i div 2)) 0)) (\<lambda>n0.
             then_do (in_range (mat_at3 src_normal (int (j div 2)) (int (i div 2)) 1)) (\<lambda>n1.
             then_do (in_range (mat_at3 src_normal (int (j div 2)) (int (i div 2)) 2)) (\<lambda>n2.
               store_pixel st j i d n0 n1 n2))))
           else Inr st)
          (\<lambda>st'. store_pixel st' j i (depth_h ! center)
                    (f4x (normal_h ! center)) (f4y (normal_h ! center)) (f4z (normal_h ! center))))"

definition JointBilateralUpsampling_prior ::
  "(float32 mat \<Rightarrow> float32 float4 list \<Rightarrow> int \<Rightarrow> float32 list \<times> float32 float4 list) \<Rightarrow>
   float32 mat \<Rightarrow> float32 mat \<Rightarrow> float32 mat \<Rightarrow> float32 mat \<Rightarrow> float32 mat \<Rightarrow>
   fault + (float32 mat \<times> float32 mat)" where
  "JointBilateralUpsampling_prior CudaRun_prior scaled_image_float src_depthmap
       upsample_depthmap src_normal upsample_normal =
     (if mrows src_depthmap = 0 \<or> mcols src_depthmap = 0 then Inl DivByZero
      else
        let rows = nat (mrows scaled_image_float);
            cols = nat (mcols scaled_image_float);
            Imagescale = Imagescale_of scaled_image_float src_depthmap
        in if Imagescale = 1 then Inr (upsample_depthmap, upsample_normal)
           else
             then_do (pack_normal_origin src_depthmap src_normal) (\<lambda>normal_origin_host.
               case CudaRun_prior scaled_image_float normal_origin_host Imagescale of
                 (depth_h, normal_h) \<Rightarrow>
                   for_range cols (\<lambda>i. for_range rows (\<lambda>j.
                       jbu_prior_fill src_depthmap src_normal depth_h normal_h cols i j))
                     (upsample_depthmap, upsample_normal)))"

text \<open>Concrete inputs of the upsampler: a 2 x 2 guidance image, 1 x 1 coarse maps, an
  accelerator pass that returns a quiet NaN everywhere and one that returns +infinity.\<close>

definition image_2x2 :: "float32 mat" where
  "image_2x2 = \<lparr>mrows = 2, mcols = 2, mdata = [0, 0, 0, 0]\<rparr>"

definition coarse_nan :: "float32 mat" where
  "coarse_nan = \<lparr>mrows = 1, mcols = 1, mdata = [0x7FC00000]\<rparr>"

definition coarse_one :: "float32 mat" where
  "coarse_one = \<lparr>mrows = 1, mcols = 1, mdata = [0x3F800000]\<rparr>"

definition run_all_nan :: "float32 mat \<Rightarrow> float32 mat \<Rightarrow> int \<Rightarrow> float32 list" where
  "run_all_nan g c s = replicate (nat (mrows g * mcols g)) 0x7FC00000"

definition run_all_inf :: "float32 mat \<Rightarrow> float32 mat \<Rightarrow> int \<Rightarrow> float32 list" where
  "run_all_inf g c s = replicate (nat (mrows g * mcols g)) 0x7F800000"

definition problem_0 :: problem where
  "problem_0 = \<lparr>ref_image_id = 0, src_image_ids = [], cur_image_size = 2\<rparr>"

text \<open>
  What the host loop of \<open>RunJBU\<close> is to leave at row \<open>j\<close>, column \<open>i\<close>: the accelerator's
  sample, or the coarse sample at the halved coordinates when the former is not a number.
  \<open>jbu_inv\<close> is the loop's invariant: the pixels \<open>done\<close> hold that value and the samples of the
  others are still the accelerator's.
\<close>

definition jbu_expected :: "float32 mat \<Rightarrow> nat \<Rightarrow> float32 list \<Rightarrow> nat \<Rightarrow> nat \<Rightarrow> float32 option" where
  "jbu_expected src_depthmap cols depth_h i j =
     (if isnan (depth_h ! (i + cols * j)) then mat_at src_depthmap (int (j div 2)) (int (i div 2))
      else Some (depth_h ! (i + cols * j)))"

definition jbu_inv ::
  "float32 mat \<Rightarrow> nat \<Rightarrow> nat \<Rightarrow> float32 list \<Rightarrow> (nat \<Rightarrow> nat \<Rightarrow> bool) \<Rightarrow>
   float32 list \<times> float32 list \<Rightarrow> bool" where
  "jbu_inv src_depthmap rows cols depth_h done st \<longleftrightarrow>
     (case st of (dh, dm) \<Rightarrow>
        length dh = length depth_h \<and> length dm = rows * cols \<and>
        (\<forall>i j. i < cols \<longrightarrow> j < rows \<longrightarrow>
           (if done i j then jbu_expected src_depthmap cols depth_h i j = Some (dm ! (i + cols * j))
            else dh ! (i + cols * j) = depth_h ! (i + cols * j))))"

text \<open>The cells of \<open>depths.dmb\<close> in the problem's result folder after a call of \<open>RunJBU\<close>
  that returned.\<close>

definition stored_depths :: "fault + filesys \<Rightarrow> string \<Rightarrow> problem \<Rightarrow> 32 word list option" where
  "stored_depths r dense_folder problem =
     (case r of
        Inl e \<Rightarrow> None
      | Inr fs \<Rightarrow> files fs (result_folder dense_folder problem @ ''/depths.dmb''))"

definition normal_coarse :: "float32 mat" where
  "normal_coarse = \<lparr>mrows = 1, mcols = 1, mdata = [0, 0, 0x3F800000]\<rparr>"

definition normal_2x2 :: "float32 mat" where
  "normal_2x2 = \<lparr>mrows = 2, mcols = 2, mdata = replicate 12 0\<rparr>"

definition run_prior_nan ::
  "float32 mat \<Rightarrow> float32 float4 list \<Rightarrow> int \<Rightarrow> float32 list \<times> float32 float4 list" where
  "run_prior_nan g c s =
     (replicate (nat (mrows g * mcols g)) 0x7FC00000,
      replicate (nat (mrows g * mcols g)) (make_float4 0x7FC00000 0x7FC00000 0x7FC00000 0x7FC00000))"

section \<open>Cameras and input initialization\<close>

text \<open>
  \<open>Camera\<close> (HPM.h): the arrays \<open>R[9]\<close>, \<open>t[3]\<close> and \<open>K[9]\<close> as lists, and the fields of
  \<open>params\<close> that HPM.cpp reads or writes.
\<close>

record camera =
  cam_R :: "real list"
  cam_t :: "real list"
  cam_K :: "real list"
  cam_height :: int
  cam_width :: int
  cam_depth_min :: real
  cam_depth_max :: real

record PatchMatchParams =
  max_iterations :: int
  depth_min :: real
  depth_max :: real
  num_images :: int
  baseline :: real
  disparity_min :: real
  disparity_max :: real
  geom_consistency :: bool
  multi_geometry :: bool
  hierarchy :: bool
  prior_consistency :: bool
  mand_consistency :: bool
  upsample :: bool
  scaled_cols :: int
  scaled_rows :: int

text \<open>
  \<open>cv::resize(src, dst, cv::Size(cols, rows), 0, 0, cv::INTER_LINEAR)\<close>: the destination gets
  the requested size, its samples are the library's interpolation \<open>interp\<close>; an empty source
  or an empty size is rejected with an exception.
\<close>

definition cv_resize ::
  "('a mat \<Rightarrow> int \<Rightarrow> int \<Rightarrow> 'a list) \<Rightarrow> 'a mat \<Rightarrow> int \<Rightarrow> int \<Rightarrow> fault + 'a mat" where
  "cv_resize interp src cols rows =
     (if mrows src \<le> 0 \<or> mcols src \<le> 0 \<or> cols \<le> 0 \<or> rows \<le> 0 then Inl CvException
      else Inr \<lparr>mrows = rows, mcols = cols, mdata = interp src cols rows\<rparr>)"

text \<open>The four assignments \<open>K[0] *= scale_x; K[2] *= scale_x; K[4] *= scale_y;
  K[5] *= scale_y\<close>.\<close>

definition scale_K :: "real list \<Rightarrow> real \<Rightarrow> real \<Rightarrow> real list" where
  "scale_K K scale_x scale_y =
     (let K0 = K[0 := K ! 0 * scale_x];
          K2 = K0[2 := K0 ! 2 * scale_x];
          K4 = K2[4 := K2 ! 4 * scale_y]
      in K4[5 := K4 ! 5 * scale_y])"

text \<open>\<open>RescaleImageAndCamera\<close>: the image \<open>src\<close> is brought to the size of \<open>depth\<close>; the result
  is \<open>dst\<close> and the camera.\<close>

definition RescaleImageAndCamera ::
  "('a mat \<Rightarrow> int \<Rightarrow> int \<Rightarrow> 'a list) \<Rightarrow> 'a mat \<Rightarrow> 'b mat \<Rightarrow> camera \<Rightarrow> fault + ('a mat \<times> camera)" where
  "RescaleImageAndCamera interp src depth camera =
     (let cols = mcols depth; rows = mrows depth in
      if cols = mcols src \<and> rows = mrows src then Inr (src, camera)
      else
        let scale_x = real_of_int cols / real_of_int (mcols src);
            scale_y = real_of_int rows / real_of_int (mrows src)
        in then_do (cv_resize interp src cols rows) (\<lambda>dst.
             Inr (dst, camera\<lparr>cam_K := scale_K (cam_K camera) scale_x scale_y,
                               cam_width := cols, cam_height := rows\<rparr>)))"

text \<open>\<open>std::round\<close>: to the nearest integer, halfway cases away from zero.\<close>

definition cround :: "real \<Rightarrow> int" where
  "cround x = (if 0 \<le> x then \<lfloor>x + 1 / 2\<rfloor> else - \<lfloor>- x + 1 / 2\<rfloor>)"

text \<open>
  The body of the loop "Scale cameras and images" of \<open>HPM::InuputInitialization\<close> for one
  view, given the size limit that applies to it.
\<close>

definition scale_view ::
  "('a mat \<Rightarrow> int \<Rightarrow> int \<Rightarrow> 'a list) \<Rightarrow> int \<Rightarrow> 'a mat \<times> camera \<Rightarrow> fault + ('a mat \<times> camera)" where
  "scale_view interp max_image_size v =
     (case v of (img, camera) \<Rightarrow>
        if mcols img \<le> max_image_size \<and> mrows img \<le> max_image_size then Inr v
        else
          let factor_x = real_of_int max_image_size / real_of_int (mcols img);
              factor_y = real_of_int max_image_size / real_of_int (mrows img);
              factor = min factor_x factor_y;
              new_cols = cround (real_of_int (mcols img) * factor);
              new_rows = cround (real_of_int (mrows img) * factor);
              scale_x = real_of_int new_cols / real_of_int (mcols img);
              scale_y = real_of_int new_rows / real_of_int (mrows img)
          in then_do (cv_resize interp img new_cols new_rows) (\<lambda>scaled_image_float.
               Inr (scaled_image_float,
                    camera\<lparr>cam_K := scale_K (cam_K camera) scale_x scale_y,
                           cam_height := mrows scaled_image_float,
                           cam_width := mcols scaled_image_float\<rparr>)))"

text \<open>
  The host side of an \<open>HPM\<close> object, and what \<open>InuputInitialization\<close> takes from outside:
  \<open>imread\<close> is \<open>cv::imread\<close> followed by the conversion to float (an empty matrix when the
  image cannot be read), \<open>ReadCamera\<close> the content of a calibration file as \<open>ReadCamera\<close>
  parses it, \<open>interp\<close> the interpolation of \<open>cv::resize\<close>.
\<close>

record hpm =
  images :: "float32 mat list"
  cameras :: "camera list"
  depths :: "float32 mat list"
  params :: PatchMatchParams
  plane_hypotheses_host :: "float32 float4 list"
  costs_host :: "float32 list"
  scaled_plane_hypotheses_host :: "float32 float4 list"

record host_env =
  imread :: "string \<Rightarrow> float32 mat"
  ReadCamera :: "string \<Rightarrow> camera"
  interp :: "float32 mat \<Rightarrow> int \<Rightarrow> int \<Rightarrow> float32 list"

text \<open>\<open>problems[k]\<close> for an \<open>int\<close> index \<open>k\<close>.\<close>

definition problem_at :: "problem list \<Rightarrow> int \<Rightarrow> fault + problem" where
  "problem_at problems k =
     (if 0 \<le> k \<and> nat k < length problems then Inr (problems ! nat k) else Inl OutOfRange)"

text \<open>Reading one view: the image, and the camera with the image's size recorded.\<close>

definition load_view :: "host_env \<Rightarrow> string \<Rightarrow> int \<Rightarrow> float32 mat \<times> camera" where
  "load_view env dense_folder image_id =
     (let image_float = imread env (dense_folder @ ''/images'' @ ''/'' @ setw8 image_id @ ''.jpg'');
          camera = ReadCamera env (dense_folder @ ''/cams'' @ ''/'' @ setw8 image_id @ ''_cam.txt'')
      in (image_float,
          camera\<lparr>cam_height := mrows image_float, cam_width := mcols image_float\<rparr>))"

text \<open>One round of the scaling loop: the limit is that of the problem itself for the
  reference view and \<open>problems[problem.src_image_ids[i - 1]].cur_image_size\<close> for the others.\<close>

definition scale_views_body ::
  "host_env \<Rightarrow> problem list \<Rightarrow> int \<Rightarrow> problem \<Rightarrow> nat \<Rightarrow>
   float32 mat list \<times> camera list \<Rightarrow> fault + (float32 mat list \<times> camera list)" where
  "scale_views_body env problems idx problem i st =
     (case st of (imgs, cams) \<Rightarrow>
        then_do (problem_at problems (if 0 < i then src_image_ids problem ! (i - 1) else idx))
          (\<lambda>p. then_do (scale_view (interp env) (cur_image_size p) (imgs ! i, cams ! i))
             (\<lambda>(img, cam). Inr (imgs[i := img], cams[i := cam]))))"

text \<open>The depth maps of the views, read for geometric consistency; the return codes of
  \<open>readDepthDmb\<close> are not looked at.\<close>

fun read_depths :: "filesys \<Rightarrow> string \<Rightarrow> string \<Rightarrow> int list \<Rightarrow> fault + float32 mat list" where
  "read_depths fs dense_folder suffix [] = Inr []"
| "read_depths fs dense_folder suffix (image_id # ids) =
     then_do (readDepthDmb fs (result_folder_id dense_folder image_id @ suffix) empty_mat)
       (\<lambda>(r, depth). then_do (read_depths fs dense_folder suffix ids)
          (\<lambda>rest. Inr (depth # rest)))"

definition InuputInitialization ::
  "host_env \<Rightarrow> filesys \<Rightarrow> string \<Rightarrow> problem list \<Rightarrow> int \<Rightarrow> hpm \<Rightarrow> fault + hpm" where
  "InuputInitialization env fs dense_folder problems idx h =
     then_do (problem_at problems idx) (\<lambda>problem.
       let views = map (load_view env dense_folder) (ref_image_id problem # src_image_ids problem)
       in then_do (for_range (length views) (scale_views_body env problems idx problem)
                     (map fst views, map snd views))
            (\<lambda>(imgs, cams).
               let dmin = cam_depth_min (cams ! 0) * (6 / 10);
                   dmax = cam_depth_max (cams ! 0) * (12 / 10);
                   p = (params h)\<lparr>depth_min := dmin, depth_max := dmax,
                          num_images := int (length imgs),
                          disparity_min := cam_K (cams ! 0) ! 0 * baseline (params h) / dmax,
                          disparity_max := cam_K (cams ! 0) ! 0 * baseline (params h) / dmin\<rparr>;
                   h1 = h\<lparr>images := imgs, cameras := cams, params := p\<rparr>
               in if geom_consistency p then
                    then_do (read_depths fs dense_folder
                               (if multi_geometry p then ''/depths_geom.dmb'' else ''/depths.dmb'')
                               (ref_image_id problem # src_image_ids problem))
                      (\<lambda>ds. Inr (h1\<lparr>depths := ds\<rparr>))
                  else Inr h1))"

definition GetMinDepth :: "hpm \<Rightarrow> real" where
  "GetMinDepth h = depth_min (params h)"

definition GetMaxDepth :: "hpm \<Rightarrow> real" where
  "GetMaxDepth h = depth_max (params h)"

text \<open>The reference camera of a problem as \<open>ReadCamera\<close> returns it.\<close>

definition reference_camera :: "host_env \<Rightarrow> string \<Rightarrow> problem \<Rightarrow> camera" where
  "reference_camera env dense_folder problem =
     ReadCamera env (dense_folder @ ''/cams'' @ ''/'' @ setw8 (ref_image_id problem) @ ''_cam.txt'')"

text \<open>
  The rescaling invariant in the spec's words: the camera \<open>c'\<close> is the camera \<open>c\<close> with the
  focal and principal-point terms of \<open>K\<close> scaled by \<open>sx\<close> and \<open>sy\<close>, the size \<open>w\<close> x \<open>h\<close>
  recorded and everything else as it was.
\<close>

definition camera_rescaled :: "camera \<Rightarrow> camera \<Rightarrow> real \<Rightarrow> real \<Rightarrow> int \<Rightarrow> int \<Rightarrow> bool" where
  "camera_rescaled c c' sx sy w h \<longleftrightarrow>
     length (cam_K c') = 9 \<and>
     cam_K c' ! 0 = cam_K c ! 0 * sx \<and> cam_K c' ! 2 = cam_K c ! 2 * sx \<and>
     cam_K c' ! 4 = cam_K c ! 4 * sy \<and> cam_K c' ! 5 = cam_K c ! 5 * sy \<and>
     cam_K c' ! 1 = cam_K c ! 1 \<and> cam_K c' ! 3 = cam_K c ! 3 \<and> cam_K c' ! 6 = cam_K c ! 6 \<and>
     cam_K c' ! 7 = cam_K c ! 7 \<and> cam_K c' ! 8 = cam_K c ! 8 \<and>
     cam_width c' = w \<and> cam_height c' = h \<and>
     cam_R c' = cam_R c \<and> cam_t c' = cam_t c \<and>
     cam_depth_min c' = cam_depth_min c \<and> cam_depth_max c' = cam_depth_max c"

text \<open>Concrete views: a 4 x 4 image with its camera, a one-problem list that limits the
  image size to 2, and an environment that serves them.\<close>

definition image_4x4 :: "float32 mat" where
  "image_4x4 = \<lparr>mrows = 4, mcols = 4, mdata = replicate 16 0\<rparr>"

definition camera_0 :: camera where
  "camera_0 = \<lparr>cam_R = [1, 0, 0, 0, 1, 0, 0, 0, 1], cam_t = [0, 0, 0],
                cam_K = [100, 0, 50, 0, 100, 50, 0, 0, 1],
                cam_height = 4, cam_width = 4, cam_depth_min = 2, cam_depth_max = 10\<rparr>"

definition interp_0 :: "float32 mat \<Rightarrow> int \<Rightarrow> int \<Rightarrow> float32 list" where
  "interp_0 m cols rows = replicate (nat (cols * rows)) 0"

definition imread_0 :: "string \<Rightarrow> float32 mat" where
  "imread_0 p = image_4x4"

definition ReadCamera_0 :: "string \<Rightarrow> camera" where
  "ReadCamera_0 p = camera_0"

definition env_0 :: host_env where
  "env_0 = \<lparr>imread = imread_0, ReadCamera = ReadCamera_0, interp = interp_0\<rparr>"

definition params_0 :: PatchMatchParams where
  "params_0 = \<lparr>max_iterations = 3, depth_min = 0, depth_max = 0, num_images = 0, baseline = 1,
                disparity_min = 0, disparity_max = 0, geom_consistency = False,
                multi_geometry = False, hierarchy = False, prior_consistency = False,
                mand_consistency = False, upsample = False, scaled_cols = 0, scaled_rows = 0\<rparr>"

definition hpm_0 :: hpm where
  "hpm_0 = \<lparr>images = [], cameras = [], depths = [], params = params_0,
             plane_hypotheses_host = [], costs_host = [], scaled_plane_hypotheses_host = []\<rparr>"

definition problems_0 :: "problem list" where
  "problems_0 = [problem_0]"

section \<open>Hierarchical initialization\<close>

text \<open>
  The first loop of the hierarchy branch of \<open>HPM::CudaSpaceInitialization\<close>: one scaled
  plane hypothesis per pixel of the stored normal map, its fourth component taken from the
  stored costs in upsample mode and from the stored depths otherwise. The array comes from
  \<open>new\<close>; \<open>junk\<close> stands for what it holds before the loop assigns it.
\<close>

definition load_scaled_hypotheses ::
  "float32 float4 \<Rightarrow> bool \<Rightarrow> float32 mat \<Rightarrow> float32 mat \<Rightarrow> float32 mat \<Rightarrow>
   fault + float32 float4 list" where
  "load_scaled_hypotheses junk up ref_depth ref_normal ref_cost =
     (let width = nat (mcols ref_normal); height = nat (mrows ref_normal) in
      for_range width (\<lambda>col. for_range height (\<lambda>row scaled.
          then_do (in_range (mat_at3 ref_normal (int row) (int col) 0)) (\<lambda>x.
          then_do (in_range (mat_at3 ref_normal (int row) (int col) 1)) (\<lambda>y.
          then_do (in_range (mat_at3 ref_normal (int row) (int col) 2)) (\<lambda>z.
          then_do (in_range (if up then mat_at ref_cost (int row) (int col)
                             else mat_at ref_depth (int row) (int col))) (\<lambda>w.
            Inr (scaled[row * width + col := make_float4 x y z w])))))))
        (replicate (height * width) junk))"

text \<open>The second loop: the stored depth goes into the fourth component of every host
  hypothesis; the other three components of the local \<open>float4\<close> are never assigned.\<close>

definition load_depth_hypotheses ::
  "float32 float4 \<Rightarrow> camera \<Rightarrow> float32 mat \<Rightarrow> float32 float4 list \<Rightarrow>
   fault + float32 float4 list" where
  "load_depth_hypotheses junk cam ref_depth hyps =
     (let width = nat (cam_width cam); height = nat (cam_height cam) in
      for_range width (\<lambda>col. for_range height (\<lambda>row hs.
          if length hs \<le> row * width + col then Inl OutOfRange
          else then_do (in_range (mat_at ref_depth (int row) (int col))) (\<lambda>w.
            Inr (hs[row * width + col := make_float4 (f4x junk) (f4y junk) (f4z junk) w]))))
        hyps)"

text \<open>
  The hierarchy branch as a whole (\<open>params.hierarchy\<close> is set). The three stored maps are
  read, whatever the readers return; \<open>width\<close> and \<open>height\<close> are the columns and rows of the
  stored normal map; upsample mode is decided by comparing \<open>width\<close> with the rows and
  \<open>height\<close> with the columns of the reference image.
\<close>

definition hierarchy_initialization ::
  "float32 float4 \<Rightarrow> filesys \<Rightarrow> string \<Rightarrow> problem \<Rightarrow> hpm \<Rightarrow> fault + hpm" where
  "hierarchy_initialization junk fs dense_folder problem h =
     (if images h = [] \<or> cameras h = [] then Inl OutOfRange
      else
        then_do (readDepthDmb fs (result_folder dense_folder problem @ ''/depths.dmb'') empty_mat)
          (\<lambda>(r1, ref_depth).
        then_do (readNormalDmb fs (result_folder dense_folder problem @ ''/normals.dmb'') empty_mat)
          (\<lambda>(r2, ref_normal).
        then_do (readDepthDmb fs (result_folder dense_folder problem @ ''/costs.dmb'') empty_mat)
          (\<lambda>(r3, ref_cost).
            let width = mcols ref_normal;
                height = mrows ref_normal;
                up = (width \<noteq> mrows (images h ! 0) \<or> height \<noteq> mcols (images h ! 0));
                p = (if up then (params h)\<lparr>upsample := True, scaled_cols := width,
                                              scaled_rows := height\<rparr>
                     else (params h)\<lparr>upsample := False\<rparr>)
            in then_do (load_scaled_hypotheses junk up ref_depth ref_normal ref_cost) (\<lambda>scaled.
               then_do (load_depth_hypotheses junk (cameras h ! 0) ref_depth
                          (plane_hypotheses_host h)) (\<lambda>hyps.
                 Inr (h\<lparr>depths := depths h @ [ref_depth], params := p,
                        scaled_plane_hypotheses_host := scaled,
                        plane_hypotheses_host := hyps\<rparr>)))))))"

text \<open>
  A stored result of 2 rows and 3 columns (depth 1.0, cost 0.5, normal (0, 0, 1) at every
  pixel) and an engine whose reference image has 2 rows and 3 columns too.
\<close>

definition stored_2x3 :: filesys where
  "stored_2x3 =
     \<lparr>files = [''d/HPM_MVS_plusplus/2333_00000000/depths.dmb'' \<mapsto>
                  [1, 2, 3, 1] @ replicate 6 0x3F800000,
               ''d/HPM_MVS_plusplus/2333_00000000/costs.dmb'' \<mapsto>
                  [1, 2, 3, 1] @ replicate 6 0x3F000000,
               ''d/HPM_MVS_plusplus/2333_00000000/normals.dmb'' \<mapsto>
                  [1, 2, 3, 3] @ concat (replicate 6 [0, 0, 0x3F800000])],
      writable = all_writable\<rparr>"

definition hpm_2x3 :: hpm where
  "hpm_2x3 =
     \<lparr>images = [\<lparr>mrows = 2, mcols = 3, mdata = replicate 6 0\<rparr>],
      cameras = [camera_0\<lparr>cam_height := 2, cam_width := 3\<rparr>], depths = [],
      params = params_0\<lparr>hierarchy := True\<rparr>,
      plane_hypotheses_host = replicate 6 (make_float4 0 0 0 0),
      costs_host = replicate 6 0, scaled_plane_hypotheses_host = []\<rparr>"

text \<open>What a call that returned left in the engine.\<close>

definition returned :: "fault + 'a \<Rightarrow> 'a option" where
  "returned r = (case r of Inl e \<Rightarrow> None | Inr x \<Rightarrow> Some x)"

section \<open>Device buffers\<close>

text \<open>
  The pointer members of an \<open>HPM\<close> object that refer to device memory, by their names in
  HPM.cpp; \<open>cuArray i\<close>, \<open>cuDepthArray i\<close> and the texture objects \<open>images_texture i\<close>,
  \<open>depths_texture i\<close> (\<open>texture_objects_host.images[i]\<close>, \<open>texture_depths_host.images[i]\<close>)
  are per image.
\<close>

datatype member =
    texture_objects_cuda | cameras_cuda | plane_hypotheses_cuda | costs_cuda | pre_costs_cuda
  | rand_states_cuda | selected_views_cuda | depths_cuda | texture_depths_cuda
  | scaled_plane_hypotheses_cuda | prior_planes_cuda | plane_masks_cuda | Canny_cuda
  | texture_cuda | confidences_cuda
  | cuArray nat | images_texture nat | cuDepthArray nat | depths_texture nat

text \<open>
  The device: allocations are numbered in the order they are made; \<open>live\<close> are those not yet
  released; \<open>ptr\<close> is the value of each pointer member (\<open>None\<close> before its first
  assignment); \<open>freed\<close> lists the argument of every release call, in order. The release
  functions of CUDA do not change the pointer they are given.
\<close>

record device =
  next_alloc :: nat
  live :: "nat list"
  ptr :: "member \<Rightarrow> nat option"
  freed :: "nat option list"

definition device_alloc :: "member \<Rightarrow> device \<Rightarrow> device" where
  "device_alloc m d =
     d\<lparr>next_alloc := Suc (next_alloc d), live := next_alloc d # live d,
       ptr := (ptr d)(m := Some (next_alloc d))\<rparr>"

definition device_free :: "member \<Rightarrow> device \<Rightarrow> device" where
  "device_free m d =
     d\<lparr>live := (case ptr d m of None \<Rightarrow> live d | Some a \<Rightarrow> removeAll a (live d)),
       freed := freed d @ [ptr d m]\<rparr>"

definition fresh_device :: device where
  "fresh_device = \<lparr>next_alloc = 0, live = [], ptr = (\<lambda>m. None), freed = []\<rparr>"

text \<open>The allocations of \<open>HPM::CudaSpaceInitialization\<close>, in its order.\<close>

definition CudaSpaceInitialization_device :: "PatchMatchParams \<Rightarrow> nat \<Rightarrow> device \<Rightarrow> device" where
  "CudaSpaceInitialization_device p n d =
     (let d1 = fold (\<lambda>i. device_alloc (images_texture i) \<circ> device_alloc (cuArray i)) [0..<n] d;
          d2 = fold device_alloc
                 [texture_objects_cuda, cameras_cuda, plane_hypotheses_cuda, costs_cuda,
                  pre_costs_cuda, rand_states_cuda, selected_views_cuda, depths_cuda] d1;
          d3 = (if geom_consistency p then
                  device_alloc texture_depths_cuda
                    (fold (\<lambda>i. device_alloc (depths_texture i) \<circ> device_alloc (cuDepthArray i))
                       [0..<n] d2)
                else d2)
      in if hierarchy p then
           fold device_alloc [scaled_plane_hypotheses_cuda, pre_costs_cuda] d3
         else d3)"

text \<open>\<open>HPM::CudaPlanarPriorInitialization\<close> (also \<open>ReloadPlanarPriorInitialization\<close>),
  \<open>TextureInformationInitialization\<close>, \<open>CudaCannyInitialization\<close> and
  \<open>CudaConfidenceInitialization\<close>.\<close>

definition CudaPlanarPriorInitialization_device :: "device \<Rightarrow> device" where
  "CudaPlanarPriorInitialization_device = fold device_alloc [prior_planes_cuda, plane_masks_cuda]"

definition TextureInformationInitialization_device :: "device \<Rightarrow> device" where
  "TextureInformationInitialization_device = device_alloc texture_cuda"

definition CudaCannyInitialization_device :: "device \<Rightarrow> device" where
  "CudaCannyInitialization_device = device_alloc Canny_cuda"

definition CudaConfidenceInitialization_device :: "device \<Rightarrow> device" where
  "CudaConfidenceInitialization_device = device_alloc confidences_cuda"

text \<open>The release routines and the destructor.\<close>

definition CudaPlanarPriorRelease :: "device \<Rightarrow> device" where
  "CudaPlanarPriorRelease = fold device_free [prior_planes_cuda, plane_masks_cuda, Canny_cuda]"

definition CudaSpaceRelease :: "bool \<Rightarrow> device \<Rightarrow> device" where
  "CudaSpaceRelease geom d =
     (let d1 = fold device_free
                 [texture_objects_cuda, cameras_cuda, plane_hypotheses_cuda, costs_cuda,
                  rand_states_cuda, selected_views_cuda, depths_cuda, texture_cuda] d
      in if geom then device_free texture_depths_cuda d1 else d1)"

definition HPM_destructor :: "PatchMatchParams \<Rightarrow> nat \<Rightarrow> device \<Rightarrow> device" where
  "HPM_destructor p n d =
     (let d1 = fold (\<lambda>i. device_free (cuArray i) \<circ> device_free (images_texture i)) [0..<n] d;
          d2 = fold device_free
                 [texture_objects_cuda, cameras_cuda, plane_hypotheses_cuda, costs_cuda,
                  pre_costs_cuda, rand_states_cuda, selected_views_cuda, depths_cuda] d1;
          d3 = (if geom_consistency p then
                  device_free texture_depths_cuda
                    (fold (\<lambda>i. device_free (cuDepthArray i) \<circ> device_free (depths_texture i))
                       [0..<n] d2)
                else d2);
          d4 = (if hierarchy p then
                  fold device_free [scaled_plane_hypotheses_cuda, pre_costs_cuda] d3
                else d3)
      in if prior_consistency p then
           fold device_free [prior_planes_cuda, plane_masks_cuda] d4
         else d4)"

text \<open>Allocations released more than once, and allocations never released.\<close>

definition freed_twice :: "device \<Rightarrow> nat list" where
  "freed_twice d = [a \<leftarrow> [0..<next_alloc d]. 2 \<le> count_list (freed d) (Some a)]"

definition never_freed :: "device \<Rightarrow> nat list" where
  "never_freed d = [a \<leftarrow> [0..<next_alloc d]. count_list (freed d) (Some a) = 0]"

text \<open>Lifetimes of an engine with one image: set up and destroyed with hierarchy mode on;
  set up, released with \<open>CudaSpaceRelease\<close> and destroyed with every mode off; set up and
  destroyed with every mode off.\<close>

definition hierarchy_lifetime :: device where
  "hierarchy_lifetime =
     HPM_destructor (params_0\<lparr>hierarchy := True\<rparr>) 1
       (CudaSpaceInitialization_device (params_0\<lparr>hierarchy := True\<rparr>) 1 fresh_device)"

definition released_lifetime :: device where
  "released_lifetime =
     HPM_destructor params_0 1
       (CudaSpaceRelease False (CudaSpaceInitialization_device params_0 1 fresh_device))"

definition plain_lifetime :: device where
  "plain_lifetime =
     HPM_destructor params_0 1 (CudaSpaceInitialization_device params_0 1 fresh_device)"

text \<open>A lifetime with planar priors on and one image, in which every set-up routine and
  every release routine runs once before the destructor.\<close>

definition full_lifetime :: device where
  "full_lifetime =
     (HPM_destructor (params_0\<lparr>prior_consistency := True\<rparr>) 1 \<circ> CudaSpaceRelease False \<circ>
      CudaPlanarPriorRelease \<circ> CudaPlanarPriorInitialization_device \<circ>
      CudaConfidenceInitialization_device \<circ> CudaCannyInitialization_device \<circ>
      TextureInformationInitialization_device \<circ>
      CudaSpaceInitialization_device (params_0\<lparr>prior_consistency := True\<rparr>) 1) fresh_device"

section \<open>Support points\<close>

text \<open>The loops \<open>for (i = a; i < b; ++i)\<close> and \<open>for (i = a; i < b; i += step)\<close>, and the
  conversion of a \<open>float\<close> to \<open>int\<close>, which drops the fraction.\<close>

definition for_from :: "nat \<Rightarrow> nat \<Rightarrow> (nat \<Rightarrow> 's \<Rightarrow> fault + 's) \<Rightarrow> 's \<Rightarrow> fault + 's" where
  "for_from a b body s = fold (\<lambda>i r. then_do r (body i)) [a..<b] (Inr s)"

definition for_step :: "nat \<Rightarrow> nat \<Rightarrow> nat \<Rightarrow> (nat \<Rightarrow> 's \<Rightarrow> fault + 's) \<Rightarrow> 's \<Rightarrow> fault + 's" where
  "for_step a b step body s =
     fold (\<lambda>i r. then_do r (body i)) [i \<leftarrow> [a..<b]. (i - a) mod step = 0] (Inr s)"

definition ctrunc :: "real \<Rightarrow> int" where
  "ctrunc x = (if 0 \<le> x then \<lfloor>x\<rfloor> else \<lceil>x\<rceil>)"

text \<open>The local variables of one tile of \<open>HPM::GetSupportPoints_Classify_Check\<close>; a
  \<open>cv::Point\<close> is the pair of its \<open>x\<close> and \<open>y\<close>.\<close>

record tile_vars =
  min_cost_no_texture :: real
  min_cost_texture :: real
  temp_point_no_texture :: "int \<times> int"
  temp_point_texture :: "int \<times> int"
  texture_flag :: bool

text \<open>The body of the two inner loops, at column \<open>c\<close> and row \<open>r\<close>.\<close>

definition tile_pixel ::
  "real mat \<Rightarrow> real mat \<Rightarrow> real mat \<Rightarrow> nat \<Rightarrow> nat \<Rightarrow> tile_vars \<Rightarrow> fault + tile_vars" where
  "tile_pixel costs confidences texture c r s =
     then_do (in_range (mat_at texture (int r) (int c))) (\<lambda>t.
     then_do (in_range (mat_at costs (int r) (int c))) (\<lambda>photometric_cost.
     then_do (in_range (mat_at confidences (int r) (int c))) (\<lambda>confidence.
       let s1 = (if 1 / 2 < t then s\<lparr>texture_flag := True\<rparr> else s) in
       if photometric_cost < 2 then
         let final_cost_no_texture = photometric_cost - confidence;
             final_cost_texture = photometric_cost + 2 / 10 - confidence;
             s2 = (if final_cost_no_texture < min_cost_no_texture s1
                   then s1\<lparr>temp_point_no_texture := (int c, int r),
                           min_cost_no_texture := final_cost_no_texture\<rparr>
                   else s1)
         in Inr (if final_cost_texture < min_cost_texture s2
                 then s2\<lparr>temp_point_texture := (int c, int r),
                         min_cost_texture := final_cost_texture\<rparr>
                 else s2)
       else Inr s1)))"

text \<open>One tile, with its upper left corner at column \<open>col\<close> and row \<open>row\<close>: the inner loops
  and the two tests that append to \<open>support2DPoints\<close>.\<close>

definition tile_points ::
  "real mat \<Rightarrow> real mat \<Rightarrow> real mat \<Rightarrow> nat \<Rightarrow> nat \<Rightarrow> nat \<Rightarrow> nat \<Rightarrow> (int \<times> int) list \<Rightarrow>
   fault + (int \<times> int) list" where
  "tile_points costs confidences texture width height col row support2DPoints =
     (let step_size = 5;
          c_bound = min width (col + step_size);
          r_bound = min height (row + step_size)
      in then_do
           (for_from col c_bound (\<lambda>c. for_from row r_bound (\<lambda>r.
                tile_pixel costs confidences texture c r))
              \<lparr>min_cost_no_texture = 2, min_cost_texture = 2, temp_point_no_texture = (0, 0),
               temp_point_texture = (0, 0), texture_flag = False\<rparr>)
           (\<lambda>s. let p1 = (if min_cost_texture s < 1 / 10
                           then support2DPoints @ [temp_point_texture s] else support2DPoints)
                 in Inr (if min_cost_no_texture s < 1 / 10
                         then p1 @ [temp_point_no_texture s] else p1)))"

definition GetSupportPoints_Classify_Check ::
  "camera \<Rightarrow> real mat \<Rightarrow> real mat \<Rightarrow> real mat \<Rightarrow> real \<Rightarrow> fault + (int \<times> int) list" where
  "GetSupportPoints_Classify_Check cam costs confidences texture hpm_factor =
     (let step_size = 5;
          width = nat (ctrunc (real_of_int (cam_width cam) * hpm_factor));
          height = nat (ctrunc (real_of_int (cam_height cam) * hpm_factor))
      in for_step 0 width step_size (\<lambda>col. for_step 0 height step_size (\<lambda>row.
           tile_points costs confidences texture width height col row)) [])"

text \<open>
  The adjusted cost of a pixel as the specification has it: the photometric cost less the
  confidence, with the penalty 0.2 added for a textured pixel (texture above 0.5).
\<close>

definition adjusted_cost :: "real \<Rightarrow> real \<Rightarrow> real \<Rightarrow> real" where
  "adjusted_cost photometric_cost confidence t =
     (if 1 / 2 < t then photometric_cost + 2 / 10 - confidence
      else photometric_cost - confidence)"

text \<open>
  A single tile of 5 x 5 textured pixels with confidence 0.5 everywhere; the photometric cost
  is 0.35 at row 2, column 3 and 0.8 elsewhere, so the adjusted cost is 0.05 at that pixel
  and 0.5 at the others.
\<close>

definition camera_5x5 :: camera where
  "camera_5x5 = camera_0\<lparr>cam_height := 5, cam_width := 5\<rparr>"

definition costs_5x5 :: "real mat" where
  "costs_5x5 = \<lparr>mrows = 5, mcols = 5,
                 mdata = replicate 13 (8 / 10) @ [35 / 100] @ replicate 11 (8 / 10)\<rparr>"

definition confidences_5x5 :: "real mat" where
  "confidences_5x5 = \<lparr>mrows = 5, mcols = 5, mdata = replicate 25 (1 / 2)\<rparr>"

definition texture_5x5 :: "real mat" where
  "texture_5x5 = \<lparr>mrows = 5, mcols = 5, mdata = replicate 25 1\<rparr>"

definition texture_none_5x5 :: "real mat" where
  "texture_none_5x5 = \<lparr>mrows = 5, mcols = 5, mdata = replicate 25 0\<rparr>"

text \<open>Two states of a tile that agree in everything but \<open>texture_flag\<close>.\<close>

definition same_trackers :: "tile_vars \<Rightarrow> tile_vars \<Rightarrow> bool" where
  "same_trackers s s' \<longleftrightarrow>
     min_cost_no_texture s = min_cost_no_texture s' \<and> min_cost_texture s = min_cost_texture s' \<and>
     temp_point_no_texture s = temp_point_no_texture s' \<and>
     temp_point_texture s = temp_point_texture s'"

section \<open>Prior planes\<close>



























section \<open>Properties of the depth-map container\<close>

lemma sint_word_of_int32:
  "- (2 ^ 31) \<le> k \<Longrightarrow> k < 2 ^ 31 \<Longrightarrow> sint (word_of_int k :: 32 word) = k"
  by (simp add: sint_sbintrunc' signed_take_bit_int_eq_self)

lemma in_range_dims:
  assumes "in_range_mat ch m" "0 < ch"
  shows "mrows m < 2 ^ 31" "mcols m < 2 ^ 31"
proof -
  from assms have r: "1 \<le> mrows m" and c: "1 \<le> mcols m" and k: "1 \<le> int ch"
    and p: "mrows m * mcols m * int ch < 2 ^ 31"
    by (simp_all add: in_range_mat_def)
  have "1 * 1 \<le> mcols m * int ch" using c k by (intro mult_mono) auto
  then have "mrows m * 1 \<le> mrows m * (mcols m * int ch)"
    using r by (intro mult_left_mono) auto
  then show "mrows m < 2 ^ 31" using p by (simp add: mult.assoc)
  have "1 * 1 \<le> mrows m * int ch" using r k by (intro mult_mono) auto
  then have "mcols m * 1 \<le> mcols m * (mrows m * int ch)"
    using c by (intro mult_left_mono) auto
  then show "mcols m < 2 ^ 31" using p by (simp add: mult.commute mult.left_commute)
qed

lemma size_t_of_count:
  assumes "0 \<le> k" "k < 2 ^ 31"
  shows "size_t_of (word_of_int k) = nat k"
proof -
  have "sint (word_of_int k :: 32 word) = k"
    using assms by (intro sint_word_of_int32) auto
  moreover have "k mod 2 ^ 64 = k"
    using assms by (intro mod_pos_pos_trivial) auto
  ultimately show ?thesis by (simp add: size_t_of_def)
qed

text \<open>The header written for an in-range matrix reads back as the same dimensions and the
  same sample count, and the samples follow it unchanged.\<close>

lemma write_read_dmb:
  assumes w: "writable fs p" and m: "in_range_mat ch m" and ch: "0 < ch"
  shows "\<exists>fs'. write_dmb (of_nat ch) fs p m = Inr (0, fs') \<and> read_dmb ch fs' p m0 = Inr (0, m)"
proof -
  let ?h = "word_of_int (mrows m) :: 32 word"
  let ?w = "word_of_int (mcols m) :: 32 word"
  let ?n = "nat (mrows m * mcols m * int ch)"
  from m have r: "0 < mrows m" and c: "0 < mcols m"
    and p: "mrows m * mcols m * int ch < 2 ^ 31"
    and len: "length (mdata m) = ?n"
    by (simp_all add: in_range_mat_def)
  have sh: "sint ?h = mrows m"
    using r in_range_dims(1)[OF m ch] by (intro sint_word_of_int32) auto
  have sw: "sint ?w = mcols m"
    using c in_range_dims(2)[OF m ch] by (intro sint_word_of_int32) auto
  have prod1: "?w * ?h * of_nat ch = (word_of_int (mrows m * mcols m * int ch) :: 32 word)"
    by (simp add: mult.commute)
  have prod2: "?h * ?w * of_nat ch = (word_of_int (mrows m * mcols m * int ch) :: 32 word)"
    by simp
  have nonneg: "0 \<le> mrows m * mcols m * int ch" using r c by simp
  have cnt1: "size_t_of (?w * ?h * of_nat ch) = ?n"
    unfolding prod1 using nonneg p by (rule size_t_of_count)
  have cnt2: "size_t_of (?h * ?w * of_nat ch) = ?n"
    unfolding prod2 using nonneg p by (rule size_t_of_count)
  have cap: "nat (mrows m) * nat (mcols m) * ch = ?n"
    using r c by (simp add: nat_mult_distrib)
  let ?fs' = "fs\<lparr>files := (files fs)(p \<mapsto> [1, ?h, ?w, of_nat ch] @ take ?n (mdata m))\<rparr>"
  have wr: "write_dmb (of_nat ch) fs p m = Inr (0, ?fs')"
    using w len by (simp add: write_dmb_def Let_def cnt1)
  have rd: "read_dmb ch ?fs' p m0 = Inr (0, m)"
    using r c len by (simp add: read_dmb_def Let_def sh sw cnt2 cap)
  from wr rd show ?thesis by blast
qed

text \<open>
  Claim C4. A depth matrix (one channel) or a normal matrix (three channels) with positive
  dimensions and a sample count within \<open>int32_t\<close>, written with \<open>writeDepthDmb\<close> or
  \<open>writeNormalDmb\<close> to a path that can be opened for writing and read back with
  \<open>readDepthDmb\<close> or \<open>readNormalDmb\<close>: both calls return 0 and the matrix read has the same
  dimensions and the same samples, bit for bit, whatever the output matrix held before.
\<close>

theorem dmb_roundtrip:
  assumes "writable fs p"
  shows "(in_range_mat 1 d \<longrightarrow>
            (\<exists>fs'. writeDepthDmb fs p d = Inr (0, fs') \<and> readDepthDmb fs' p m0 = Inr (0, d))) \<and>
         (in_range_mat 3 n \<longrightarrow>
            (\<exists>fs'. writeNormalDmb fs p n = Inr (0, fs') \<and> readNormalDmb fs' p m1 = Inr (0, n)))"
proof (intro conjI impI)
  assume "in_range_mat 1 d"
  from write_read_dmb[OF assms this, of m0]
  show "\<exists>fs'. writeDepthDmb fs p d = Inr (0, fs') \<and> readDepthDmb fs' p m0 = Inr (0, d)"
    by (simp add: writeDepthDmb_def readDepthDmb_def)
next
  assume "in_range_mat 3 n"
  from write_read_dmb[OF assms this, of m1]
  show "\<exists>fs'. writeNormalDmb fs p n = Inr (0, fs') \<and> readNormalDmb fs' p m1 = Inr (0, n)"
    by (simp add: writeNormalDmb_def readNormalDmb_def)
qed

theorem dmb_roundtrip_witness:
  "writable no_files ''depths.dmb'' \<and> in_range_mat 1 depth_1x2 \<and> in_range_mat 3 normal_1x1 \<and>
   (\<exists>fs'. writeDepthDmb no_files ''depths.dmb'' depth_1x2 = Inr (0, fs') \<and>
          readDepthDmb fs' ''depths.dmb'' empty_mat = Inr (0, depth_1x2)) \<and>
   (\<exists>fs'. writeNormalDmb no_files ''depths.dmb'' normal_1x1 = Inr (0, fs') \<and>
          readNormalDmb fs' ''depths.dmb'' empty_mat = Inr (0, normal_1x1))"
proof -
  have w: "writable no_files ''depths.dmb''"
    by (simp add: no_files_def all_writable_def)
  have d: "in_range_mat 1 depth_1x2"
    by (simp add: in_range_mat_def depth_1x2_def)
  have n: "in_range_mat 3 normal_1x1"
    by (simp add: in_range_mat_def normal_1x1_def)
  from dmb_roundtrip[OF w, of depth_1x2 empty_mat normal_1x1 empty_mat] w d n
  show ?thesis by blast
qed

lemma read_dmb_fail:
  "open_failed_or_bad_tag fs p \<Longrightarrow> read_dmb ch fs p m = Inr (- 1, m)"
  by (auto simp: open_failed_or_bad_tag_def read_dmb_def split: option.splits list.splits)

lemma read_dmb_not_fail:
  "\<not> open_failed_or_bad_tag fs p \<Longrightarrow> read_dmb ch fs p m \<noteq> Inr (- 1, m')"
  by (auto simp: open_failed_or_bad_tag_def read_dmb_def Let_def split: option.splits list.splits)

lemma read_dmb_sound:
  assumes "sound_header ch fs p h w"
  shows "\<exists>m'. read_dmb ch fs p m = Inr (0, m') \<and> mrows m' = h \<and> mcols m' = w \<and>
              length (mdata m') = nat h * nat w * ch"
  using assms
  by (auto simp: sound_header_def read_dmb_def Let_def split: option.splits list.splits)

text \<open>
  Claim C8, as the code has it. \<open>readDepthDmb\<close> and \<open>readNormalDmb\<close> return -1, with the output
  matrix as it was, when the file cannot be opened or its type tag is not 1, and in no other
  case; that return is a value handed to the caller. When the file opens with tag 1 and a
  complete header whose height and width are not negative and whose samples fit the matrix,
  they return 0 with the output matrix allocated to the header's height and width.
\<close>

theorem read_dmb_outcomes:
  "(open_failed_or_bad_tag fs p \<longrightarrow>
      readDepthDmb fs p d = Inr (- 1, d) \<and> readNormalDmb fs p n = Inr (- 1, n)) \<and>
   (\<not> open_failed_or_bad_tag fs p \<longrightarrow>
      readDepthDmb fs p d \<noteq> Inr (- 1, d') \<and> readNormalDmb fs p n \<noteq> Inr (- 1, n')) \<and>
   (sound_header 1 fs p h w \<longrightarrow>
      (\<exists>m'. readDepthDmb fs p d = Inr (0, m') \<and> mrows m' = h \<and> mcols m' = w \<and>
            length (mdata m') = nat h * nat w)) \<and>
   (sound_header 3 fs p h w \<longrightarrow>
      (\<exists>m'. readNormalDmb fs p n = Inr (0, m') \<and> mrows m' = h \<and> mcols m' = w \<and>
            length (mdata m') = nat h * nat w * 3))"
  using read_dmb_fail[of fs p 1 d] read_dmb_fail[of fs p 3 n]
    read_dmb_not_fail[of fs p 1 d d'] read_dmb_not_fail[of fs p 3 n n']
    read_dmb_sound[of 1 fs p h w d] read_dmb_sound[of 3 fs p h w n]
  by (simp add: readDepthDmb_def readNormalDmb_def)

text \<open>
  A file that opens, carries tag 1 and announces the height -1 makes neither reader return:
  \<open>cv::Mat::zeros\<close> throws on the negative dimension and nothing catches it.
\<close>

theorem read_dmb_negative_height:
  "files negative_height_fs ''depths.dmb'' = Some [1, - 1, 1, 1, 0] \<and>
   readDepthDmb negative_height_fs ''depths.dmb'' empty_mat = Inl CvException \<and>
   readNormalDmb negative_height_fs ''depths.dmb'' empty_mat = Inl CvException"
  by (simp add: negative_height_fs_def readDepthDmb_def readNormalDmb_def read_dmb_def)

theorem read_dmb_outcomes_witness:
  "open_failed_or_bad_tag no_files ''depths.dmb'' \<and>
   readDepthDmb no_files ''depths.dmb'' depth_1x2 = Inr (- 1, depth_1x2) \<and>
   readNormalDmb no_files ''depths.dmb'' normal_1x1 = Inr (- 1, normal_1x1) \<and>
   \<not> open_failed_or_bad_tag good_header_fs ''depths.dmb'' \<and>
   readDepthDmb good_header_fs ''depths.dmb'' empty_mat \<noteq> Inr (- 1, empty_mat) \<and>
   sound_header 1 good_header_fs ''depths.dmb'' 1 2 \<and>
   sound_header 3 good_header_fs ''depths.dmb'' 1 2 \<and>
   (\<exists>m'. readDepthDmb good_header_fs ''depths.dmb'' empty_mat = Inr (0, m') \<and>
         mrows m' = 1 \<and> mcols m' = 2 \<and> length (mdata m') = 2) \<and>
   (\<exists>m'. readNormalDmb good_header_fs ''depths.dmb'' empty_mat = Inr (0, m') \<and>
         mrows m' = 1 \<and> mcols m' = 2 \<and> length (mdata m') = 6)"
proof -
  have a: "open_failed_or_bad_tag no_files ''depths.dmb''"
    by (simp add: open_failed_or_bad_tag_def no_files_def)
  have b: "\<not> open_failed_or_bad_tag good_header_fs ''depths.dmb''"
    by (simp add: open_failed_or_bad_tag_def good_header_fs_def)
  have c: "sound_header 1 good_header_fs ''depths.dmb'' 1 2"
    by (simp add: sound_header_def good_header_fs_def size_t_of_def)
  have d: "sound_header 3 good_header_fs ''depths.dmb'' 1 2"
    by (simp add: sound_header_def good_header_fs_def size_t_of_def)
  from read_dmb_outcomes[of no_files "''depths.dmb''" depth_1x2 normal_1x1 _ _ 1 2] a
  have 1: "readDepthDmb no_files ''depths.dmb'' depth_1x2 = Inr (- 1, depth_1x2) \<and>
           readNormalDmb no_files ''depths.dmb'' normal_1x1 = Inr (- 1, normal_1x1)"
    by blast
  from read_dmb_outcomes[of good_header_fs "''depths.dmb''" empty_mat empty_mat empty_mat empty_mat 1 2] b c d
  have 2: "readDepthDmb good_header_fs ''depths.dmb'' empty_mat \<noteq> Inr (- 1, empty_mat) \<and>
     (\<exists>m'. readDepthDmb good_header_fs ''depths.dmb'' empty_mat = Inr (0, m') \<and>
         mrows m' = 1 \<and> mcols m' = 2 \<and> length (mdata m') = 2) \<and>
     (\<exists>m'. readNormalDmb good_header_fs ''depths.dmb'' empty_mat = Inr (0, m') \<and>
         mrows m' = 1 \<and> mcols m' = 2 \<and> length (mdata m') = 6)"
    by simp
  from a b c d 1 2 show ?thesis by blast
qed

section \<open>Properties of the upsampler\<close>

lemma float_ne_self: "float_ne x x \<longleftrightarrow> isnan x"
  by (simp add: float_ne_def)

lemma for_range_0: "for_range 0 body s = Inr s"
  by (simp add: for_range_def)

lemma for_range_Suc: "for_range (Suc n) body s = then_do (for_range n body s) (body n)"
  by (simp add: for_range_def)

lemma then_do_Inr: "then_do r f = Inr y \<longleftrightarrow> (\<exists>x. r = Inr x \<and> f x = Inr y)"
  by (cases r) (simp_all add: then_do_def)

lemma then_do_simps: "then_do (Inl e) f = Inl e" "then_do (Inr x) f = f x"
  by (simp_all add: then_do_def)

lemma then_do_assoc: "then_do (then_do r f) g = then_do r (\<lambda>x. then_do (f x) g)"
  by (cases r) (simp_all add: then_do_def)

lemma in_range_Inr: "in_range v = Inr x \<longleftrightarrow> v = Some x"
  by (cases v) (simp_all add: in_range_def)

lemma for_range_rule:
  assumes run: "for_range n body s0 = Inr s"
    and init: "P 0 s0"
    and step: "\<And>i a b. i < n \<Longrightarrow> P i a \<Longrightarrow> body i a = Inr b \<Longrightarrow> P (Suc i) b"
  shows "P n s"
proof -
  have "k \<le> n \<Longrightarrow> for_range k body s0 = Inr a \<Longrightarrow> P k a" for k a
  proof (induction k arbitrary: a)
    case 0
    then show ?case using init by (simp add: for_range_0)
  next
    case (Suc k)
    from Suc.prems(2) obtain b where b: "for_range k body s0 = Inr b" and a: "body k b = Inr a"
      by (auto simp: for_range_Suc then_do_Inr)
    from Suc.IH[OF _ b] Suc.prems(1) have "P k b" by simp
    with a Suc.prems(1) show ?case by (intro step[of k b a]) auto
  qed
  from this[OF order_refl run] show ?thesis .
qed

lemma center_inj:
  assumes "(i::nat) < cols" "i' < cols" "i + cols * j = i' + cols * j'"
  shows "i = i' \<and> j = j'"
proof -
  from assms(3) have "(i + cols * j) mod cols = (i' + cols * j') mod cols" by simp
  with assms(1,2) have "i = i'" by simp
  with assms(3) assms(1) show ?thesis by simp
qed

lemma center_bound: "(i::nat) < cols \<Longrightarrow> j < rows \<Longrightarrow> i + cols * j < rows * cols"
proof -
  assume a: "i < cols" "j < rows"
  then have "i + cols * j < cols + cols * j" by simp
  also have "\<dots> = cols * Suc j" by simp
  also have "\<dots> \<le> cols * rows" using a(2) by (intro mult_le_mono2) simp
  finally show ?thesis by (simp add: mult.commute)
qed


lemma jbu_inv_cong:
  assumes "jbu_inv src rows cols d0 done st"
    and "\<And>i j. i < cols \<Longrightarrow> j < rows \<Longrightarrow> done i j = done' i j"
  shows "jbu_inv src rows cols d0 done' st"
  using assms by (auto simp: jbu_inv_def split: prod.splits)

lemma jbu_fill_step:
  assumes inv: "jbu_inv src rows cols d0 done st"
    and ij: "i < cols" "j < rows" and nd: "\<not> done i j"
    and run: "jbu_fill src cols i j st = Inr st'"
  shows "jbu_inv src rows cols d0 (\<lambda>i' j'. done i' j' \<or> (i' = i \<and> j' = j)) st'"
proof -
  obtain dh dm where st: "st = (dh, dm)" by (cases st)
  let ?c = "i + cols * j"
  from inv st have len: "length dh = length d0" "length dm = rows * cols"
    and all: "\<And>i' j'. i' < cols \<Longrightarrow> j' < rows \<Longrightarrow>
        (if done i' j' then jbu_expected src cols d0 i' j' = Some (dm ! (i' + cols * j'))
         else dh ! (i' + cols * j') = d0 ! (i' + cols * j'))"
    by (auto simp: jbu_inv_def)
  from all[OF ij] nd have cur: "dh ! ?c = d0 ! ?c" by simp
  from run st have inb: "?c < length dh" "?c < length dm"
    by (auto simp: jbu_fill_def Let_def split: if_splits)
  have other: "i' + cols * j' \<noteq> ?c" if "i' < cols" "\<not> (i' = i \<and> j' = j)" for i' j'
    using center_inj[OF that(1) ij(1), of j' j] that(2) by auto
  have "\<exists>v dh'. st' = (dh', dm[?c := v]) \<and> jbu_expected src cols d0 i j = Some v \<and>
           length dh' = length dh \<and> (\<forall>c. c \<noteq> ?c \<longrightarrow> dh' ! c = dh ! c)"
  proof (cases "isnan (dh ! ?c)")
    case True
    with run st inb obtain v where v: "mat_at src (int (j div 2)) (int (i div 2)) = Some v"
      and st': "st' = (dh[?c := v], dm[?c := v])"
      by (auto simp: jbu_fill_def Let_def float_ne_self then_do_Inr in_range_Inr)
    have "jbu_expected src cols d0 i j = Some v"
      using True cur v by (simp add: jbu_expected_def)
    with st' show ?thesis by simp
  next
    case False
    with run st inb have st': "st' = (dh, dm[?c := dh ! ?c])"
      by (auto simp: jbu_fill_def Let_def float_ne_self)
    have "jbu_expected src cols d0 i j = Some (dh ! ?c)"
      using False cur by (simp add: jbu_expected_def)
    with st' show ?thesis by simp
  qed
  then obtain v dh' where st': "st' = (dh', dm[?c := v])"
    and exp: "jbu_expected src cols d0 i j = Some v"
    and len': "length dh' = length dh"
    and same: "\<And>c. c \<noteq> ?c \<Longrightarrow> dh' ! c = dh ! c"
    by blast
  have pix: "if done i' j' \<or> (i' = i \<and> j' = j)
             then jbu_expected src cols d0 i' j' = Some (dm[?c := v] ! (i' + cols * j'))
             else dh' ! (i' + cols * j') = d0 ! (i' + cols * j')"
    if b: "i' < cols" "j' < rows" for i' j'
  proof (cases "i' = i \<and> j' = j")
    case True
    then show ?thesis using exp inb(2) by simp
  next
    case False
    from other[OF b(1) False] have ne: "i' + cols * j' \<noteq> ?c" .
    then have "dm[?c := v] ! (i' + cols * j') = dm ! (i' + cols * j')"
      and "dh' ! (i' + cols * j') = dh ! (i' + cols * j')"
      using same by simp_all
    with all[OF b] False show ?thesis by (auto split: if_splits)
  qed
  show ?thesis
    unfolding st' jbu_inv_def using len len' pix by simp
qed

lemma jbu_rows_loop:
  assumes inv: "jbu_inv src rows cols d0 (\<lambda>i' j'. i' < i) st"
    and i: "i < cols"
    and run: "for_range rows (\<lambda>j. jbu_fill src cols i j) st = Inr st'"
  shows "jbu_inv src rows cols d0 (\<lambda>i' j'. i' < Suc i) st'"
proof -
  let ?P = "\<lambda>j. jbu_inv src rows cols d0 (\<lambda>i' j'. i' < i \<or> (i' = i \<and> j' < j))"
  have "?P rows st'"
  proof (rule for_range_rule[OF run, where P = ?P])
    show "?P 0 st" using inv by simp
  next
    fix j a b
    assume j: "j < rows" and a: "?P j a" and b: "jbu_fill src cols i j a = Inr b"
    have "jbu_inv src rows cols d0
            (\<lambda>i' j'. (i' < i \<or> (i' = i \<and> j' < j)) \<or> (i' = i \<and> j' = j)) b"
      by (rule jbu_fill_step[OF a i j _ b]) simp
    then show "?P (Suc j) b"
      by (rule jbu_inv_cong) auto
  qed
  then show ?thesis by (rule jbu_inv_cong) auto
qed

lemma jbu_cols_loop:
  assumes run: "for_range cols (\<lambda>i. for_range rows (\<lambda>j. jbu_fill src cols i j))
                  (d0, replicate (rows * cols) 0) = Inr st'"
  shows "jbu_inv src rows cols d0 (\<lambda>i' j'. True) st'"
proof -
  let ?P = "\<lambda>i. jbu_inv src rows cols d0 (\<lambda>i' j'. i' < i)"
  have "?P cols st'"
  proof (rule for_range_rule[OF run, where P = ?P])
    show "?P 0 (d0, replicate (rows * cols) 0)" by (simp add: jbu_inv_def)
  next
    fix i a b
    assume "i < cols" "?P i a" "for_range rows (\<lambda>j. jbu_fill src cols i j) a = Inr b"
    then show "?P (Suc i) b" by (intro jbu_rows_loop[of src rows cols d0 i a b])
  qed
  then show ?thesis by (rule jbu_inv_cong) auto
qed

lemma jbu_postpass_pixel:
  assumes run: "jbu_postpass src rows cols d0 = Inr out" and ij: "i < cols" "j < rows"
  shows "mrows out = int rows \<and> mcols out = int cols \<and>
         jbu_expected src cols d0 i j = mat_at out (int j) (int i) \<and>
         mat_at out (int j) (int i) \<noteq> None"
proof -
  from run obtain dh dm
    where loop: "for_range cols (\<lambda>i. for_range rows (\<lambda>j. jbu_fill src cols i j))
                  (d0, replicate (rows * cols) 0) = Inr (dh, dm)"
      and out: "out = \<lparr>mrows = int rows, mcols = int cols, mdata = dm\<rparr>"
    by (auto simp: jbu_postpass_def then_do_Inr)
  from jbu_cols_loop[OF loop] ij
  have len: "length dm = rows * cols"
    and px: "jbu_expected src cols d0 i j = Some (dm ! (i + cols * j))"
    by (auto simp: jbu_inv_def)
  have idx: "nat (int j * int cols + int i) = i + cols * j"
    by (simp add: nat_add_distrib nat_mult_distrib mult.commute add.commute)
  have "mat_at out (int j) (int i) = Some (dm ! (i + cols * j))"
    using ij len center_bound[OF ij] by (simp add: mat_at_def out idx)
  with px out show ?thesis by simp
qed


lemma write_dmb_returns_0: "write_dmb nb fs p m = Inr (r, fs') \<Longrightarrow> r = 0"
  by (auto simp: write_dmb_def Let_def split: if_splits)

text \<open>A loop whose body returns and keeps an invariant returns.\<close>

lemma for_range_total:
  assumes init: "P 0 s0"
    and step: "\<And>i a. i < n \<Longrightarrow> P i a \<Longrightarrow> \<exists>b. body i a = Inr b \<and> P (Suc i) b"
  shows "\<exists>s. for_range n body s0 = Inr s \<and> P n s"
proof -
  have "k \<le> n \<Longrightarrow> \<exists>s. for_range k body s0 = Inr s \<and> P k s" for k
  proof (induction k)
    case 0
    then show ?case using init by (simp add: for_range_0)
  next
    case (Suc k)
    then obtain a where a: "for_range k body s0 = Inr a" "P k a" by auto
    from step[of k a] Suc.prems a(2) obtain b where "body k a = Inr b" "P (Suc k) b" by auto
    with a(1) show ?case by (simp add: for_range_Suc then_do_simps)
  qed
  then show ?thesis by simp
qed

text \<open>
  \<open>RunJBU\<close> returns when the coarse map is a proper matrix, the guidance image has twice its
  rows and columns (scale 2), the accelerator pass leaves one sample per pixel and the result
  file can be written.
\<close>

lemma jbu_postpass_returns:
  assumes src: "in_range_mat 1 src"
    and dims: "int rows \<le> 2 * mrows src" "int cols \<le> 2 * mcols src"
    and len: "length d0 = rows * cols"
  shows "\<exists>out. jbu_postpass src rows cols d0 = Inr out"
proof -
  let ?L = "\<lambda>st :: float32 list \<times> float32 list.
              length (fst st) = rows * cols \<and> length (snd st) = rows * cols"
  have cell: "\<exists>v. mat_at src (int (j div 2)) (int (i div 2)) = Some v"
    if "i < cols" "j < rows" for i j
  proof -
    from src have r: "0 < mrows src" and c: "0 < mcols src"
      and l: "length (mdata src) = nat (mrows src * mcols src)"
      by (simp_all add: in_range_mat_def)
    have jr: "int (j div 2) < mrows src" using that(2) dims(1) by linarith
    have ic: "int (i div 2) < mcols src" using that(1) dims(2) by linarith
    have "nat (int (j div 2) * mcols src + int (i div 2)) = i div 2 + nat (mcols src) * (j div 2)"
      using c by (simp add: nat_add_distrib nat_mult_distrib mult.commute add.commute)
    moreover have "i div 2 + nat (mcols src) * (j div 2) < nat (mrows src) * nat (mcols src)"
      using jr ic by (intro center_bound) linarith+
    moreover have "nat (mrows src) * nat (mcols src) = nat (mrows src * mcols src)"
      using r c by (simp add: nat_mult_distrib)
    ultimately show ?thesis using jr ic l by (simp add: mat_at_def)
  qed
  have rows_loop: "\<exists>b. for_range rows (\<lambda>j. jbu_fill src cols i j) a = Inr b \<and> ?L b"
    if "i < cols" "?L a" for i a
  proof (rule for_range_total[where P = "\<lambda>j. ?L"])
    show "?L a" by fact
  next
    fix j and st :: "float32 list \<times> float32 list"
    assume j: "j < rows" and L: "?L st"
    obtain dh dm where st: "st = (dh, dm)" by (cases st)
    from cell[OF that(1) j] obtain v where v: "mat_at src (int (j div 2)) (int (i div 2)) = Some v" ..
    from center_bound[OF that(1) j] L st
    have "i + cols * j < length dh" "i + cols * j < length dm" by simp_all
    then show "\<exists>b. jbu_fill src cols i j st = Inr b \<and> ?L b"
      using L st v by (simp add: jbu_fill_def Let_def then_do_simps in_range_def)
  qed
  have "\<exists>s. for_range cols (\<lambda>i. for_range rows (\<lambda>j. jbu_fill src cols i j))
              (d0, replicate (rows * cols) 0) = Inr s \<and> ?L s"
    by (rule for_range_total[where P = "\<lambda>i. ?L"]) (use len rows_loop in auto)
  then show ?thesis
    by (auto simp: jbu_postpass_def then_do_simps split: prod.splits)
qed

lemma RunJBU_returns:
  assumes src: "in_range_mat 1 src"
    and dims: "mrows img = 2 * mrows src" "mcols img = 2 * mcols src"
    and size: "mrows img * mcols img < 2 ^ 31"
    and len: "length (CudaRun img src (Imagescale_of img src)) = nat (mrows img) * nat (mcols img)"
    and w: "writable fs (result_folder dense_folder problem @ ''/depths.dmb'')"
  shows "Imagescale_of img src = 2 \<and>
         (\<exists>fs'. RunJBU CudaRun fs img src dense_folder problem = Inr fs')"
proof -
  from src have r: "0 < mrows src" and c: "0 < mcols src" by (simp_all add: in_range_mat_def)
  have sc: "Imagescale_of img src = 2"
    using r c dims by (simp add: Imagescale_of_def tdiv_def)
  let ?rows = "nat (mrows img)" and ?cols = "nat (mcols img)"
  have "\<exists>out. jbu_postpass src ?rows ?cols (CudaRun img src 2) = Inr out"
    using r c dims len sc by (intro jbu_postpass_returns[OF src]) simp_all
  then obtain out where out: "jbu_postpass src ?rows ?cols (CudaRun img src 2) = Inr out" ..
  from out obtain dh dm where
    loop: "for_range ?cols (\<lambda>i. for_range ?rows (\<lambda>j. jbu_fill src ?cols i j))
              (CudaRun img src 2, replicate (?rows * ?cols) 0) = Inr (dh, dm)"
    and o: "out = \<lparr>mrows = int ?rows, mcols = int ?cols, mdata = dm\<rparr>"
    by (auto simp: jbu_postpass_def then_do_Inr)
  from jbu_cols_loop[OF loop] have ldm: "length dm = ?rows * ?cols" by (simp add: jbu_inv_def)
  have "in_range_mat 1 out"
    using r c dims size ldm by (simp add: in_range_mat_def o nat_mult_distrib)
  from write_read_dmb[OF w this, of empty_mat] obtain fs' r0
    where "writeDepthDmb fs (result_folder dense_folder problem @ ''/depths.dmb'') out = Inr (r0, fs')"
    by (auto simp: writeDepthDmb_def)
  with out sc r c show ?thesis
    by (simp add: RunJBU_def Let_def then_do_simps)
qed

text \<open>
  Claim C1, as the code has it. When \<open>RunJBU\<close> runs with a scale other than 1 and returns,
  the depth map it has written to \<open>depths.dmb\<close> holds at every row \<open>j\<close> and column \<open>i\<close> of
  the guidance image a defined sample: the accelerator's sample at \<open>i + cols * j\<close> unless that
  is not a number, and then the coarse map's sample at \<open>(j div 2, i div 2)\<close>. So a stored
  sample is not a number only where the accelerator's sample and the coarse sample it falls
  back to both are.
\<close>

theorem RunJBU_nan_fallback:
  assumes run: "RunJBU CudaRun fs img src dense_folder problem = Inr fs'"
    and scale: "Imagescale_of img src \<noteq> 1"
  shows "\<exists>depthmap.
           writeDepthDmb fs (result_folder dense_folder problem @ ''/depths.dmb'') depthmap
             = Inr (0, fs') \<and>
           (\<forall>i < nat (mcols img). \<forall>j < nat (mrows img).
              mat_at depthmap (int j) (int i) \<noteq> None \<and>
              mat_at depthmap (int j) (int i) =
                jbu_expected src (nat (mcols img)) (CudaRun img src (Imagescale_of img src)) i j \<and>
              (\<forall>v. mat_at depthmap (int j) (int i) = Some v \<longrightarrow> isnan v \<longrightarrow>
                 isnan (CudaRun img src (Imagescale_of img src) ! (i + nat (mcols img) * j)) \<and>
                 mat_at src (int (j div 2)) (int (i div 2)) = Some v))"
proof -
  let ?rows = "nat (mrows img)" and ?cols = "nat (mcols img)"
  let ?d0 = "CudaRun img src (Imagescale_of img src)"
  from run scale obtain depthmap r
    where post: "jbu_postpass src ?rows ?cols ?d0 = Inr depthmap"
      and wr: "writeDepthDmb fs (result_folder dense_folder problem @ ''/depths.dmb'') depthmap
                 = Inr (r, fs')"
    by (auto simp: RunJBU_def Let_def then_do_Inr split: if_splits)
  from wr have "r = 0" by (simp add: writeDepthDmb_def write_dmb_returns_0)
  with wr have wr0: "writeDepthDmb fs (result_folder dense_folder problem @ ''/depths.dmb'') depthmap
                 = Inr (0, fs')" by simp
  have "mat_at depthmap (int j) (int i) \<noteq> None \<and>
        mat_at depthmap (int j) (int i) = jbu_expected src ?cols ?d0 i j \<and>
        (\<forall>v. mat_at depthmap (int j) (int i) = Some v \<longrightarrow> isnan v \<longrightarrow>
           isnan (?d0 ! (i + ?cols * j)) \<and> mat_at src (int (j div 2)) (int (i div 2)) = Some v)"
    if "i < ?cols" "j < ?rows" for i j
  proof -
    from jbu_postpass_pixel[OF post that]
    have e: "jbu_expected src ?cols ?d0 i j = mat_at depthmap (int j) (int i)"
      and n: "mat_at depthmap (int j) (int i) \<noteq> None" by simp_all
    from e show ?thesis using n
      by (auto simp: jbu_expected_def split: if_splits)
  qed
  with wr0 show ?thesis by blast
qed

lemma postpass_nan_one:
  "jbu_postpass coarse_one 2 2 (run_all_nan image_2x2 coarse_one 2) =
     Inr \<lparr>mrows = 2, mcols = 2, mdata = [0x3F800000, 0x3F800000, 0x3F800000, 0x3F800000]\<rparr>"
  by code_simp

theorem RunJBU_nan_fallback_witness:
  "\<exists>fs'. RunJBU run_all_nan no_files image_2x2 coarse_one ''d'' problem_0 = Inr fs' \<and>
         Imagescale_of image_2x2 coarse_one \<noteq> 1 \<and>
         (\<exists>depthmap.
            writeDepthDmb no_files (result_folder ''d'' problem_0 @ ''/depths.dmb'') depthmap
              = Inr (0, fs') \<and>
            (\<forall>i < 2. \<forall>j < 2.
               mat_at depthmap (int j) (int i) = Some 0x3F800000 \<and>
               isnan (run_all_nan image_2x2 coarse_one 2 ! (i + 2 * j))))"
proof -
  have sc: "Imagescale_of image_2x2 coarse_one = 2"
    by (simp add: Imagescale_of_def image_2x2_def coarse_one_def tdiv_def)
  have dims: "nat (mrows image_2x2) = 2" "nat (mcols image_2x2) = 2"
    "mrows coarse_one \<noteq> 0" "mcols coarse_one \<noteq> 0"
    by (simp_all add: image_2x2_def coarse_one_def)
  obtain fs' where run: "RunJBU run_all_nan no_files image_2x2 coarse_one ''d'' problem_0 = Inr fs'"
    by (simp add: RunJBU_def Let_def sc dims postpass_nan_one then_do_def writeDepthDmb_def
        write_dmb_def no_files_def all_writable_def size_t_of_def)
  have ne: "Imagescale_of image_2x2 coarse_one \<noteq> 1" by (simp add: sc)
  have c: "mat_at coarse_one 0 0 = Some 0x3F800000"
    by (simp add: mat_at_def coarse_one_def)
  have nan: "isnan (run_all_nan image_2x2 coarse_one 2 ! k)" if "k < 4" for k
    using that by (simp add: run_all_nan_def image_2x2_def isnan_def)
  from RunJBU_nan_fallback[OF run ne] obtain depthmap
    where wr: "writeDepthDmb no_files (result_folder ''d'' problem_0 @ ''/depths.dmb'') depthmap
                 = Inr (0, fs')"
      and px: "\<And>i j. i < 2 \<Longrightarrow> j < 2 \<Longrightarrow>
          mat_at depthmap (int j) (int i) =
            jbu_expected coarse_one 2 (run_all_nan image_2x2 coarse_one 2) i j"
    by (auto simp: dims sc)
  have "mat_at depthmap (int j) (int i) = Some 0x3F800000 \<and>
        isnan (run_all_nan image_2x2 coarse_one 2 ! (i + 2 * j))" if "i < 2" "j < 2" for i j
  proof -
    from that have k: "i + 2 * j < 4" and h: "j div 2 = 0" "i div 2 = 0" by simp_all
    from px[OF that] nan[OF k] c h show ?thesis
      using nan[OF k] by (simp add: jbu_expected_def)
  qed
  with run ne wr show ?thesis by blast
qed

text \<open>
  With scale 2, a coarse map that holds a NaN and an accelerator pass that returns NaN,
  \<open>RunJBU\<close> writes NaN; and a sample that comes back as +infinity is written as it is: the
  test \<open>x != x\<close> singles out NaN only.
\<close>

theorem RunJBU_output_not_finite:
  "Imagescale_of image_2x2 coarse_nan = 2 \<and>
   stored_depths (RunJBU run_all_nan no_files image_2x2 coarse_nan ''d'' problem_0) ''d'' problem_0
     = Some [1, 2, 2, 1, 0x7FC00000, 0x7FC00000, 0x7FC00000, 0x7FC00000] \<and>
   isnan 0x7FC00000 \<and>
   Imagescale_of image_2x2 coarse_one = 2 \<and>
   stored_depths (RunJBU run_all_inf no_files image_2x2 coarse_one ''d'' problem_0) ''d'' problem_0
     = Some [1, 2, 2, 1, 0x7F800000, 0x7F800000, 0x7F800000, 0x7F800000] \<and>
   \<not> isfinite 0x7F800000"
  by code_simp

text \<open>After one round of the host loop of \<open>JointBilateralUpsampling_prior\<close> the depth at
  the pixel is the accelerator's sample, a number or not.\<close>

lemma mat_at_set: "mat_set m r c v = Some m' \<Longrightarrow> mat_at m' r c = Some v"
  by (auto simp: mat_set_def mat_at_def split: if_splits)

lemma store_pixel_depth:
  assumes "store_pixel st j i d n0 n1 n2 = Inr (ud', un')"
  shows "mat_at ud' (int j) (int i) = Some d"
  using assms
  by (cases st) (auto simp: store_pixel_def then_do_Inr in_range_Inr dest: mat_at_set)

lemma jbu_prior_fill_keeps_sample:
  assumes "jbu_prior_fill src_depthmap src_normal depth_h normal_h cols i j st = Inr (ud', un')"
  shows "mat_at ud' (int j) (int i) = Some (depth_h ! (i + cols * j))"
  using assms
  by (auto simp: jbu_prior_fill_def Let_def then_do_Inr split: if_splits dest: store_pixel_depth)

text \<open>
  In \<open>JointBilateralUpsampling_prior\<close> the assignments after the \<open>if\<close> overwrite the
  fallback: with a coarse depth of 1.0 and an accelerator pass that returns NaN, every
  output sample is NaN.
\<close>

lemma prior_fallback_overwritten:
  "JointBilateralUpsampling_prior run_prior_nan image_2x2 coarse_one image_2x2 normal_coarse
       normal_2x2 =
     Inr (\<lparr>mrows = 2, mcols = 2, mdata = replicate 4 0x7FC00000\<rparr>,
          \<lparr>mrows = 2, mcols = 2, mdata = replicate 12 0x7FC00000\<rparr>)"
  by code_simp

lemma tdiv_self: "0 < a \<Longrightarrow> tdiv a a = 1"
  by (simp add: tdiv_def)

text \<open>A depth map that \<open>writeDepthDmb\<close> stored is what \<open>readDepthDmb\<close> finds in the
  file.\<close>

lemma written_depths_read_back:
  assumes w: "writeDepthDmb fs0 p m = Inr (0, fs)" and m: "in_range_mat 1 m"
  shows "readDepthDmb fs p m0 = Inr (0, m)"
proof -
  from w have "writable fs0 p"
    by (auto simp: writeDepthDmb_def write_dmb_def split: if_splits)
  from write_read_dmb[OF this m, of m0] w show ?thesis
    by (auto simp: writeDepthDmb_def readDepthDmb_def)
qed

text \<open>
  Claim C7, as the code has it. When the guidance image and the coarse depth map have the
  same (positive) numbers of rows and columns, so that the integer scale is 1, both functions
  return at once. \<open>RunJBU\<close> runs no accelerator pass and writes nothing: the files stay as
  they are, so \<open>depths.dmb\<close> reads back as the coarse map, bit for bit, when the coarse map
  is what was stored there. \<open>JointBilateralUpsampling_prior\<close> returns both output maps as
  they were passed in; it assigns nothing to them.
\<close>

theorem noop_upsampling:
  assumes "mrows img = mrows src" "mcols img = mcols src" "0 < mrows src" "0 < mcols src"
  shows "RunJBU CudaRun fs img src dense_folder problem = Inr fs \<and>
         JointBilateralUpsampling_prior CudaRun_prior img src upsample_depthmap src_normal
           upsample_normal = Inr (upsample_depthmap, upsample_normal) \<and>
         (in_range_mat 1 src \<and>
          writeDepthDmb fs0 (result_folder dense_folder problem @ ''/depths.dmb'') src
            = Inr (0, fs) \<longrightarrow>
            (\<exists>fs'. RunJBU CudaRun fs img src dense_folder problem = Inr fs' \<and>
                   readDepthDmb fs' (result_folder dense_folder problem @ ''/depths.dmb'') m0
                     = Inr (0, src)))"
proof -
  have r: "RunJBU CudaRun fs img src dense_folder problem = Inr fs"
    using assms by (simp add: RunJBU_def Imagescale_of_def tdiv_self Let_def)
  have p: "JointBilateralUpsampling_prior CudaRun_prior img src upsample_depthmap src_normal
           upsample_normal = Inr (upsample_depthmap, upsample_normal)"
    using assms by (simp add: JointBilateralUpsampling_prior_def Imagescale_of_def tdiv_self Let_def)
  from r p written_depths_read_back[of fs0 _ src fs m0] show ?thesis by simp
qed

theorem noop_upsampling_witness:
  "mrows image_2x2 = mrows image_2x2 \<and> 0 < mrows image_2x2 \<and> 0 < mcols image_2x2 \<and>
   in_range_mat 1 image_2x2 \<and>
   (\<exists>fs. writeDepthDmb no_files (result_folder ''d'' problem_0 @ ''/depths.dmb'') image_2x2
            = Inr (0, fs) \<and>
         RunJBU run_all_nan fs image_2x2 image_2x2 ''d'' problem_0 = Inr fs \<and>
         readDepthDmb fs (result_folder ''d'' problem_0 @ ''/depths.dmb'') empty_mat
           = Inr (0, image_2x2)) \<and>
   JointBilateralUpsampling_prior run_prior_nan image_2x2 image_2x2 image_2x2 normal_2x2
     normal_2x2 = Inr (image_2x2, normal_2x2)"
proof -
  have d: "0 < mrows image_2x2" "0 < mcols image_2x2" by (simp_all add: image_2x2_def)
  have m: "in_range_mat 1 image_2x2" by (simp add: in_range_mat_def image_2x2_def)
  let ?p = "result_folder ''d'' problem_0 @ ''/depths.dmb''"
  obtain fs where w: "writeDepthDmb no_files ?p image_2x2 = Inr (0, fs)"
    using write_read_dmb[of no_files ?p 1 image_2x2] m
    by (auto simp: writeDepthDmb_def no_files_def all_writable_def)
  from noop_upsampling[OF refl refl d, of run_all_nan fs "''d''" problem_0
      run_prior_nan image_2x2 normal_2x2 normal_2x2 no_files empty_mat] d m w
  show ?thesis by auto
qed

text \<open>
  The outputs are not made from the coarse maps. With a guidance image and coarse maps of
  2 x 2, \<open>JointBilateralUpsampling_prior\<close> called with an output depth map of 1 x 2 and an
  output normal map of 1 x 1 returns those two, which are not the coarse maps; and \<open>RunJBU\<close>
  on a file system without \<open>depths.dmb\<close> leaves it without one.
\<close>

theorem noop_output_not_coarse:
  "Imagescale_of image_2x2 image_2x2 = 1 \<and>
   JointBilateralUpsampling_prior run_prior_nan image_2x2 image_2x2 depth_1x2 normal_2x2
     normal_1x1 = Inr (depth_1x2, normal_1x1) \<and>
   depth_1x2 \<noteq> image_2x2 \<and> normal_1x1 \<noteq> normal_2x2 \<and>
   stored_depths (RunJBU run_all_nan no_files image_2x2 image_2x2 ''d'' problem_0) ''d'' problem_0
     = None"
  by (simp add: JointBilateralUpsampling_prior_def RunJBU_def Imagescale_of_def tdiv_def
      image_2x2_def depth_1x2_def normal_1x1_def normal_2x2_def stored_depths_def no_files_def
      Let_def)

section \<open>Properties of rescaling and of the depth range\<close>

lemma scale_K_nth:
  assumes "length K = 9"
  shows "length (scale_K K sx sy) = 9"
    "scale_K K sx sy ! 0 = K ! 0 * sx" "scale_K K sx sy ! 2 = K ! 2 * sx"
    "scale_K K sx sy ! 4 = K ! 4 * sy" "scale_K K sx sy ! 5 = K ! 5 * sy"
    "scale_K K sx sy ! 1 = K ! 1" "scale_K K sx sy ! 3 = K ! 3" "scale_K K sx sy ! 6 = K ! 6"
    "scale_K K sx sy ! 7 = K ! 7" "scale_K K sx sy ! 8 = K ! 8"
  using assms by (simp_all add: scale_K_def Let_def nth_list_update)

lemma cv_resize_dims:
  "cv_resize f src cols rows = Inr dst \<Longrightarrow> mcols dst = cols \<and> mrows dst = rows"
  by (auto simp: cv_resize_def split: if_splits)

lemma RescaleImageAndCamera_same:
  assumes "RescaleImageAndCamera f src depth camera = Inr (dst, camera')"
    and "mcols depth = mcols src" "mrows depth = mrows src"
  shows "dst = src \<and> camera' = camera"
  using assms by (simp add: RescaleImageAndCamera_def Let_def)

lemma RescaleImageAndCamera_resized:
  assumes run: "RescaleImageAndCamera f src depth camera = Inr (dst, camera')"
    and ne: "\<not> (mcols depth = mcols src \<and> mrows depth = mrows src)"
    and K: "length (cam_K camera) = 9"
  shows "mcols dst = mcols depth \<and> mrows dst = mrows depth \<and>
         camera_rescaled camera camera'
           (real_of_int (mcols dst) / real_of_int (mcols src))
           (real_of_int (mrows dst) / real_of_int (mrows src)) (mcols dst) (mrows dst)"
proof -
  from run ne obtain d where d: "cv_resize f src (mcols depth) (mrows depth) = Inr d"
    and res: "dst = d"
      "camera' = camera\<lparr>cam_K := scale_K (cam_K camera)
                 (real_of_int (mcols depth) / real_of_int (mcols src))
                 (real_of_int (mrows depth) / real_of_int (mrows src)),
               cam_width := mcols depth, cam_height := mrows depth\<rparr>"
    by (auto simp: RescaleImageAndCamera_def Let_def then_do_Inr)
  from cv_resize_dims[OF d] res(1) have dims: "mcols dst = mcols depth" "mrows dst = mrows depth"
    by simp_all
  show ?thesis
    unfolding camera_rescaled_def dims res(2) using scale_K_nth[OF K] by simp
qed

lemma scale_view_same:
  assumes "scale_view f limit (src, camera) = Inr (dst, camera')"
    and "mcols src \<le> limit \<and> mrows src \<le> limit"
  shows "dst = src \<and> camera' = camera"
  using assms by (simp add: scale_view_def)

lemma scale_view_resized:
  assumes run: "scale_view f limit (src, camera) = Inr (dst, camera')"
    and ne: "\<not> (mcols src \<le> limit \<and> mrows src \<le> limit)"
    and K: "length (cam_K camera) = 9"
  shows "camera_rescaled camera camera'
           (real_of_int (mcols dst) / real_of_int (mcols src))
           (real_of_int (mrows dst) / real_of_int (mrows src)) (mcols dst) (mrows dst)"
proof -
  let ?f = "min (real_of_int limit / real_of_int (mcols src)) (real_of_int limit / real_of_int (mrows src))"
  let ?nc = "cround (real_of_int (mcols src) * ?f)"
  let ?nr = "cround (real_of_int (mrows src) * ?f)"
  from run ne obtain d where d: "cv_resize f src ?nc ?nr = Inr d"
    and res: "dst = d"
      "camera' = camera\<lparr>cam_K := scale_K (cam_K camera)
                 (real_of_int ?nc / real_of_int (mcols src))
                 (real_of_int ?nr / real_of_int (mrows src)),
               cam_height := mrows d, cam_width := mcols d\<rparr>"
    by (auto simp: scale_view_def Let_def then_do_Inr)
  from cv_resize_dims[OF d] res(1) have dims: "mcols dst = ?nc" "mrows dst = ?nr"
    by simp_all
  show ?thesis
    unfolding camera_rescaled_def res(2) using scale_K_nth[OF K] dims res(1) by simp
qed


text \<open>The scaling loop applies \<open>scale_view\<close> to each view once, with the limit of the
  problem that the view's position selects.\<close>

lemma scale_views_loop:
  assumes run: "for_range n (scale_views_body env problems idx problem) (imgs, cams)
                  = Inr (imgs', cams')"
    and n: "n \<le> length imgs" "length cams = length imgs"
  shows "length imgs' = length imgs" "length cams' = length imgs"
    "i < n \<Longrightarrow>
       \<exists>p. problem_at problems (if 0 < i then src_image_ids problem ! (i - 1) else idx) = Inr p \<and>
           scale_view (interp env) (cur_image_size p) (imgs ! i, cams ! i)
             = Inr (imgs' ! i, cams' ! i)"
proof -
  let ?done = "\<lambda>a b i. \<exists>p. problem_at problems (if 0 < i then src_image_ids problem ! (i - 1) else idx)
                         = Inr p \<and>
                  scale_view (interp env) (cur_image_size p) (imgs ! i, cams ! i)
                    = Inr (a ! i, b ! i)"
  let ?P = "\<lambda>k st. case st of (a, b) \<Rightarrow>
              length a = length imgs \<and> length b = length imgs \<and>
              (\<forall>i<k. ?done a b i) \<and>
              (\<forall>i\<ge>k. a ! i = imgs ! i \<and> b ! i = cams ! i)"
  have "?P n (imgs', cams')"
  proof (rule for_range_rule[OF run, where P = ?P])
    show "?P 0 (imgs, cams)" using n by simp
  next
    fix k st st'
    assume k: "k < n" and P: "?P k st"
      and body: "scale_views_body env problems idx problem k st = Inr st'"
    obtain a b where st: "st = (a, b)" by (cases st)
    from P st have len: "length a = length imgs" "length b = length imgs"
      and dn: "\<And>i. i < k \<Longrightarrow> ?done a b i"
      and rest: "\<And>i. k \<le> i \<Longrightarrow> a ! i = imgs ! i \<and> b ! i = cams ! i"
      by auto
    from body st obtain p img cam
      where p: "problem_at problems (if 0 < k then src_image_ids problem ! (k - 1) else idx) = Inr p"
        and sv: "scale_view (interp env) (cur_image_size p) (a ! k, b ! k) = Inr (img, cam)"
        and st': "st' = (a[k := img], b[k := cam])"
      by (auto simp: scale_views_body_def then_do_Inr)
    from rest[of k] sv have sv': "scale_view (interp env) (cur_image_size p) (imgs ! k, cams ! k)
        = Inr (img, cam)" by simp
    have kl: "k < length a" "k < length b" using k n len by simp_all
    have "?done (a[k := img]) (b[k := cam]) i" if "i < Suc k" for i
    proof (cases "i = k")
      case True
      with p sv' kl show ?thesis by auto
    next
      case False
      with that have "i < k" by simp
      from dn[OF this] False show ?thesis by simp
    qed
    moreover have "a[k := img] ! i = imgs ! i \<and> b[k := cam] ! i = cams ! i" if "Suc k \<le> i" for i
      using rest[of i] that by simp
    ultimately show "?P (Suc k) st'" using st' len by simp
  qed
  then show "length imgs' = length imgs" "length cams' = length imgs"
    "i < n \<Longrightarrow>
       \<exists>p. problem_at problems (if 0 < i then src_image_ids problem ! (i - 1) else idx) = Inr p \<and>
           scale_view (interp env) (cur_image_size p) (imgs ! i, cams ! i)
             = Inr (imgs' ! i, cams' ! i)"
    by simp_all
qed

lemma scale_view_depth_range:
  "scale_view f limit (src, camera) = Inr (dst, camera') \<Longrightarrow>
     cam_depth_min camera' = cam_depth_min camera \<and> cam_depth_max camera' = cam_depth_max camera"
  by (auto simp: scale_view_def Let_def then_do_Inr split: if_splits)

lemma load_view_depth_range:
  "cam_depth_min (snd (load_view env d k)) = cam_depth_min (ReadCamera env (d @ ''/cams'' @ ''/'' @ setw8 k @ ''_cam.txt'')) \<and>
   cam_depth_max (snd (load_view env d k)) = cam_depth_max (ReadCamera env (d @ ''/cams'' @ ''/'' @ setw8 k @ ''_cam.txt''))"
  by (simp add: load_view_def Let_def)

lemma InuputInitialization_params:
  assumes run: "InuputInitialization env fs dense_folder problems idx h = Inr h'"
  shows "\<exists>problem. problem_at problems idx = Inr problem \<and>
           depth_min (params h') =
             cam_depth_min (reference_camera env dense_folder problem) * (6 / 10) \<and>
           depth_max (params h') =
             cam_depth_max (reference_camera env dense_folder problem) * (12 / 10)"
proof -
  from run obtain problem where pr: "problem_at problems idx = Inr problem"
    by (auto simp: InuputInitialization_def then_do_Inr)
  let ?ids = "ref_image_id problem # src_image_ids problem"
  let ?views = "map (load_view env dense_folder) ?ids"
  from run pr obtain imgs cams
    where loop: "for_range (length ?views) (scale_views_body env problems idx problem)
                   (map fst ?views, map snd ?views) = Inr (imgs, cams)"
      and par: "depth_min (params h') = cam_depth_min (cams ! 0) * (6 / 10)"
               "depth_max (params h') = cam_depth_max (cams ! 0) * (12 / 10)"
    by (auto simp: InuputInitialization_def then_do_Inr Let_def split: if_splits)
  have "\<exists>p. problem_at problems (if 0 < (0::nat) then src_image_ids problem ! (0 - 1) else idx)
              = Inr p \<and>
            scale_view (interp env) (cur_image_size p) (map fst ?views ! 0, map snd ?views ! 0)
              = Inr (imgs ! 0, cams ! 0)"
    by (rule scale_views_loop(3)[OF loop]) simp_all
  then obtain p :: problem
    where "scale_view (interp env) (cur_image_size p)
             (map fst ?views ! 0, map snd ?views ! 0) = Inr (imgs ! 0, cams ! 0)"
    by blast
  then have "scale_view (interp env) (cur_image_size p)
             (fst (load_view env dense_folder (ref_image_id problem)),
              snd (load_view env dense_folder (ref_image_id problem))) = Inr (imgs ! 0, cams ! 0)"
    by simp
  from scale_view_depth_range[OF this] load_view_depth_range[of env dense_folder "ref_image_id problem"]
  have "cam_depth_min (cams ! 0) = cam_depth_min (reference_camera env dense_folder problem)"
       "cam_depth_max (cams ! 0) = cam_depth_max (reference_camera env dense_folder problem)"
    by (simp_all add: reference_camera_def)
  with pr par show ?thesis by simp
qed


text \<open>
  Claim C5. Where \<open>RescaleImageAndCamera\<close> or the scaling loop of \<open>InuputInitialization\<close>
  resamples an image, the camera that goes with it is updated with it: with
  \<open>sx = dst.cols / src.cols\<close> and \<open>sy = dst.rows / src.rows\<close>, \<open>K'[0] = K[0] * sx\<close>,
  \<open>K'[2] = K[2] * sx\<close>, \<open>K'[4] = K[4] * sy\<close>, \<open>K'[5] = K[5] * sy\<close>, the recorded width and
  height are those of the resized image, and the other entries of \<open>K\<close>, \<open>R\<close>, \<open>t\<close> and the
  depth range are unchanged. Where the image is not resampled, image and camera stay as they
  are.
\<close>

theorem rescaling_invariant:
  assumes K: "length (cam_K camera) = 9"
  shows "(RescaleImageAndCamera f src depth camera = Inr (dst, camera') \<longrightarrow>
            (if mcols depth = mcols src \<and> mrows depth = mrows src
             then dst = src \<and> camera' = camera
             else mcols dst = mcols depth \<and> mrows dst = mrows depth \<and>
                  camera_rescaled camera camera'
                    (real_of_int (mcols dst) / real_of_int (mcols src))
                    (real_of_int (mrows dst) / real_of_int (mrows src))
                    (mcols dst) (mrows dst))) \<and>
         (scale_view g limit (src, camera) = Inr (dst, camera') \<longrightarrow>
            (if mcols src \<le> limit \<and> mrows src \<le> limit
             then dst = src \<and> camera' = camera
             else camera_rescaled camera camera'
                    (real_of_int (mcols dst) / real_of_int (mcols src))
                    (real_of_int (mrows dst) / real_of_int (mrows src))
                    (mcols dst) (mrows dst)))"
  using RescaleImageAndCamera_same[of f src depth camera dst camera']
    RescaleImageAndCamera_resized[of f src depth camera dst camera', OF _ _ K]
    scale_view_same[of g limit src camera dst camera']
    scale_view_resized[of g limit src camera dst camera', OF _ _ K]
  by auto

lemma camera_0_rescaled:
  "RescaleImageAndCamera interp_0 image_4x4 image_2x2 camera_0 =
     Inr (\<lparr>mrows = 2, mcols = 2, mdata = replicate 4 0\<rparr>,
          camera_0\<lparr>cam_K := [50, 0, 25, 0, 50, 25, 0, 0, 1], cam_width := 2, cam_height := 2\<rparr>)"
  by (simp add: RescaleImageAndCamera_def Let_def image_4x4_def image_2x2_def camera_0_def
      cv_resize_def then_do_def interp_0_def scale_K_def)

lemma camera_0_scaled:
  "scale_view interp_0 2 (image_4x4, camera_0) =
     Inr (\<lparr>mrows = 2, mcols = 2, mdata = replicate 4 0\<rparr>,
          camera_0\<lparr>cam_K := [50, 0, 25, 0, 50, 25, 0, 0, 1], cam_height := 2, cam_width := 2\<rparr>)"
  by (simp add: scale_view_def Let_def image_4x4_def camera_0_def
      cv_resize_def then_do_def interp_0_def scale_K_def cround_def)

theorem rescaling_invariant_witness:
  "length (cam_K camera_0) = 9 \<and>
   RescaleImageAndCamera interp_0 image_4x4 image_2x2 camera_0 =
     Inr (\<lparr>mrows = 2, mcols = 2, mdata = replicate 4 0\<rparr>,
          camera_0\<lparr>cam_K := [50, 0, 25, 0, 50, 25, 0, 0, 1], cam_width := 2, cam_height := 2\<rparr>) \<and>
   scale_view interp_0 2 (image_4x4, camera_0) =
     Inr (\<lparr>mrows = 2, mcols = 2, mdata = replicate 4 0\<rparr>,
          camera_0\<lparr>cam_K := [50, 0, 25, 0, 50, 25, 0, 0, 1], cam_height := 2, cam_width := 2\<rparr>) \<and>
   camera_rescaled camera_0
     (camera_0\<lparr>cam_K := [50, 0, 25, 0, 50, 25, 0, 0, 1], cam_width := 2, cam_height := 2\<rparr>)
     (1 / 2) (1 / 2) 2 2"
proof -
  have K: "length (cam_K camera_0) = 9" by (simp add: camera_0_def)
  have d: "\<not> (mcols image_2x2 = mcols image_4x4 \<and> mrows image_2x2 = mrows image_4x4)"
    by (simp add: image_2x2_def image_4x4_def)
  from rescaling_invariant[OF K, of interp_0 image_4x4 image_2x2
      "\<lparr>mrows = 2, mcols = 2, mdata = replicate 4 0\<rparr>"
      "camera_0\<lparr>cam_K := [50, 0, 25, 0, 50, 25, 0, 0, 1], cam_width := 2, cam_height := 2\<rparr>"
      interp_0 2] camera_0_rescaled camera_0_scaled d K
  show ?thesis by (simp add: image_4x4_def)
qed

text \<open>
  Claim C10. After \<open>InuputInitialization\<close> has returned for the problem at \<open>idx\<close>,
  \<open>GetMinDepth\<close> is 0.6 times the \<open>depth_min\<close> and \<open>GetMaxDepth\<close> is 1.2 times the
  \<open>depth_max\<close> that \<open>ReadCamera\<close> returned for the reference image.
\<close>

theorem depth_range_widened:
  assumes "InuputInitialization env fs dense_folder problems idx h = Inr h'"
    and "problem_at problems idx = Inr problem"
  shows "GetMinDepth h' = cam_depth_min (reference_camera env dense_folder problem) * (6 / 10) \<and>
         GetMaxDepth h' = cam_depth_max (reference_camera env dense_folder problem) * (12 / 10)"
  using InuputInitialization_params[OF assms(1)] assms(2)
  by (auto simp: GetMinDepth_def GetMaxDepth_def)

lemma for_range_1: "for_range (Suc 0) body s = body 0 s"
  by (simp add: for_range_def then_do_def)

lemma camera_0_size:
  "camera_0\<lparr>cam_height := mrows image_4x4, cam_width := mcols image_4x4\<rparr> = camera_0"
  by (simp add: camera_0_def image_4x4_def)

lemma inuput_0_returns:
  "\<exists>h'. InuputInitialization env_0 no_files ''d'' problems_0 0 hpm_0 = Inr h'"
  by (simp add: InuputInitialization_def problem_at_def problems_0_def problem_0_def Let_def
      then_do_def for_range_1 scale_views_body_def load_view_def env_0_def imread_0_def
      ReadCamera_0_def camera_0_size camera_0_scaled hpm_0_def params_0_def)

theorem depth_range_widened_witness:
  "\<exists>h'. InuputInitialization env_0 no_files ''d'' problems_0 0 hpm_0 = Inr h' \<and>
         problem_at problems_0 0 = Inr problem_0 \<and>
         GetMinDepth h' = 12 / 10 \<and> GetMaxDepth h' = 12"
proof -
  from inuput_0_returns obtain h'
    where run: "InuputInitialization env_0 no_files ''d'' problems_0 0 hpm_0 = Inr h'" by blast
  have p: "problem_at problems_0 0 = Inr problem_0"
    by (simp add: problem_at_def problems_0_def)
  have c: "reference_camera env_0 ''d'' problem_0 = camera_0"
    by (simp add: reference_camera_def env_0_def ReadCamera_0_def)
  from depth_range_widened[OF run p] have
    "GetMinDepth h' = 12 / 10 \<and> GetMaxDepth h' = 12"
    by (simp add: c camera_0_def)
  with run p show ?thesis by blast
qed

text \<open>After \<open>InuputInitialization\<close>, view \<open>i\<close> of the engine is the view read for the
  \<open>i\<close>-th image id, passed through \<open>scale_view\<close>.\<close>

lemma InuputInitialization_views:
  assumes run: "InuputInitialization env fs dense_folder problems idx h = Inr h'"
    and pr: "problem_at problems idx = Inr problem"
    and i: "i < Suc (length (src_image_ids problem))"
  shows "length (images h') = Suc (length (src_image_ids problem)) \<and>
         length (cameras h') = Suc (length (src_image_ids problem)) \<and>
         (\<exists>p. problem_at problems (if 0 < i then src_image_ids problem ! (i - 1) else idx) = Inr p \<and>
              scale_view (interp env) (cur_image_size p)
                (load_view env dense_folder ((ref_image_id problem # src_image_ids problem) ! i))
                = Inr (images h' ! i, cameras h' ! i))"
proof -
  let ?ids = "ref_image_id problem # src_image_ids problem"
  let ?views = "map (load_view env dense_folder) ?ids"
  from run pr obtain imgs cams
    where loop: "for_range (length ?views) (scale_views_body env problems idx problem)
                   (map fst ?views, map snd ?views) = Inr (imgs, cams)"
      and res: "images h' = imgs" "cameras h' = cams"
    by (auto simp: InuputInitialization_def then_do_Inr Let_def split: if_splits)
  have len: "length imgs = length (map fst ?views)" "length cams = length (map fst ?views)"
    by (rule scale_views_loop(1,2)[OF loop]; simp)+
  have iv: "i < length ?views" using i by simp
  have "\<exists>p. problem_at problems (if 0 < i then src_image_ids problem ! (i - 1) else idx) = Inr p \<and>
            scale_view (interp env) (cur_image_size p) (map fst ?views ! i, map snd ?views ! i)
              = Inr (imgs ! i, cams ! i)"
    by (rule scale_views_loop(3)[OF loop _ _ iv]) simp_all
  moreover have "(map fst ?views ! i, map snd ?views ! i) = load_view env dense_folder (?ids ! i)"
    using i by (simp add: nth_map[of i ?views] nth_map[of i ?ids] del: list.map)
  ultimately show ?thesis using len res by simp
qed

section \<open>Properties of hierarchical initialization\<close>

lemma then_do_prod_Inr:
  "then_do r (\<lambda>(a, b). f a b) = Inr y \<longleftrightarrow> (\<exists>a b. r = Inr (a, b) \<and> f a b = Inr y)"
  by (cases r) (auto simp: then_do_def)

text \<open>Upsample mode after the hierarchy branch: on exactly when the stored normal map's
  column count differs from the reference image's row count or its row count from the
  image's column count.\<close>

lemma hierarchy_flag:
  assumes run: "hierarchy_initialization junk fs dense_folder problem h = Inr h'"
  shows "\<exists>r ref_normal.
           readNormalDmb fs (result_folder dense_folder problem @ ''/normals.dmb'') empty_mat
             = Inr (r, ref_normal) \<and>
           upsample (params h') =
             (mcols ref_normal \<noteq> mrows (images h ! 0) \<or> mrows ref_normal \<noteq> mcols (images h ! 0))"
proof -
  from run obtain r1 ref_depth r2 ref_normal r3 ref_cost scaled hyps
    where n: "readNormalDmb fs (result_folder dense_folder problem @ ''/normals.dmb'') empty_mat
                = Inr (r2, ref_normal)"
      and h': "h' = h\<lparr>depths := depths h @ [ref_depth],
                 params := (if mcols ref_normal \<noteq> mrows (images h ! 0) \<or>
                               mrows ref_normal \<noteq> mcols (images h ! 0)
                            then (params h)\<lparr>upsample := True, scaled_cols := mcols ref_normal,
                                               scaled_rows := mrows ref_normal\<rparr>
                            else (params h)\<lparr>upsample := False\<rparr>),
                 scaled_plane_hypotheses_host := scaled, plane_hypotheses_host := hyps\<rparr>"
  proof -
    from run have ne: "images h \<noteq> []" "cameras h \<noteq> []"
      by (auto simp: hierarchy_initialization_def split: if_splits)
    from run ne that show thesis
      by (auto simp: hierarchy_initialization_def then_do_prod_Inr then_do_Inr Let_def)
  qed
  have "upsample (params h') =
          (mcols ref_normal \<noteq> mrows (images h ! 0) \<or> mrows ref_normal \<noteq> mcols (images h ! 0))"
    unfolding h' by simp
  with n show ?thesis by blast
qed

text \<open>
  Claim C6 at a stored result and a reference image of the same resolution, 2 rows by 3
  columns: the branch compares 3 (columns) with 2 (rows), turns upsample mode on, and loads
  the stored cost 0.5, not the stored depth 1.0, into the fourth component of every scaled
  hypothesis.
\<close>

theorem equal_resolution_upsamples:
  "map_option (\<lambda>h. (upsample (params h), map f4w (scaled_plane_hypotheses_host h)))
     (returned (hierarchy_initialization (make_float4 0 0 0 0) stored_2x3 ''d'' problem_0 hpm_2x3))
   = Some (True, replicate 6 0x3F000000)"
  by code_simp

theorem equal_resolution_upsamples_witness:
  "\<exists>h'. hierarchy_initialization (make_float4 0 0 0 0) stored_2x3 ''d'' problem_0 hpm_2x3 = Inr h' \<and>
         upsample (params h') \<and>
         map f4w (scaled_plane_hypotheses_host h') = replicate 6 0x3F000000"
proof (cases "hierarchy_initialization (make_float4 0 0 0 0) stored_2x3 ''d'' problem_0 hpm_2x3")
  case (Inl e)
  with equal_resolution_upsamples show ?thesis by (simp add: returned_def)
next
  case (Inr h')
  with equal_resolution_upsamples show ?thesis by (simp add: returned_def)
qed

text \<open>Two nested loops that assign \<open>buf[row * W + col]\<close> for every column and row leave
  in each place the value computed for it.\<close>

lemma fill_loops:
  fixes val :: "nat \<Rightarrow> nat \<Rightarrow> fault + 'a"
  assumes run: "for_range W (\<lambda>col. for_range H (\<lambda>row buf.
                  then_do (val row col) (\<lambda>v. Inr (buf[row * W + col := v])))) buf0 = Inr buf"
    and len: "length buf0 = H * W" and rc: "row < H" "col < W"
  shows "length buf = H * W \<and> val row col = Inr (buf ! (row * W + col))"
proof -
  let ?Inv = "\<lambda>done b. length b = H * W \<and>
                (\<forall>r c. r < H \<longrightarrow> c < W \<longrightarrow> done r c \<longrightarrow> val r c = Inr (b ! (r * W + c)))"
  have step: "?Inv (\<lambda>r' c'. dn r' c' \<or> (r' = r \<and> c' = c)) b'"
    if inv: "?Inv dn b" and r: "r < H" and c: "c < W"
      and b': "then_do (val r c) (\<lambda>v. Inr (b[r * W + c := v])) = Inr b'"
    for dn b b' r c
  proof -
    from b' obtain v where v: "val r c = Inr v" and b'eq: "b' = b[r * W + c := v]"
      by (auto simp: then_do_Inr)
    have idx: "r * W + c < length b"
      using center_bound[OF c r] inv by (simp add: add.commute mult.commute)
    have "val r' c' = Inr (b' ! (r' * W + c'))"
      if "r' < H" "c' < W" "dn r' c' \<or> (r' = r \<and> c' = c)" for r' c'
    proof (cases "r' = r \<and> c' = c")
      case True
      with v idx show ?thesis by (simp add: b'eq)
    next
      case False
      have "r' * W + c' \<noteq> r * W + c"
        using center_inj[OF that(2) c, of r' r] False by (auto simp: add.commute mult.commute)
      with that False inv show ?thesis by (simp add: b'eq)
    qed
    with inv show ?thesis by (simp add: b'eq)
  qed
  have rows: "?Inv (\<lambda>r' c'. c' < Suc c) b'"
    if inv: "?Inv (\<lambda>r' c'. c' < c) b" and c: "c < W"
      and run: "for_range H (\<lambda>row buf. then_do (val row c) (\<lambda>v. Inr (buf[row * W + c := v]))) b
                  = Inr b'"
    for b b' c
  proof -
    let ?P = "\<lambda>r. ?Inv (\<lambda>r' c'. c' < c \<or> (c' = c \<and> r' < r))"
    have "?P H b'"
    proof (rule for_range_rule[OF run, where P = ?P])
      show "?P 0 b" using inv by simp
    next
      fix r a a'
      assume r: "r < H" and a: "?P r a"
        and a': "then_do (val r c) (\<lambda>v. Inr (a[r * W + c := v])) = Inr a'"
      from step[OF a r c a'] show "?P (Suc r) a'" by (auto simp: less_Suc_eq)
    qed
    then show ?thesis by (auto simp: less_Suc_eq)
  qed
  let ?Q = "\<lambda>c. ?Inv (\<lambda>r' c'. c' < c)"
  have "?Q W buf"
  proof (rule for_range_rule[OF run, where P = ?Q])
    show "?Q 0 buf0" using len by simp
  next
    fix c a a'
    assume c: "c < W" and a: "?Q c a"
      and r: "for_range H (\<lambda>row buf. then_do (val row c) (\<lambda>v. Inr (buf[row * W + c := v]))) a
                = Inr a'"
    show "?Q (Suc c) a'" by (rule rows[OF a c r])
  qed
  with rc show ?thesis by simp
qed


text \<open>
  The fourth component of each scaled hypothesis is the stored cost in upsample mode and the
  stored depth otherwise; the first three are the stored normal.
\<close>

lemma scaled_hypothesis_components:
  assumes run: "load_scaled_hypotheses junk up ref_depth ref_normal ref_cost = Inr scaled"
    and rc: "row < nat (mrows ref_normal)" "col < nat (mcols ref_normal)"
  shows "length scaled = nat (mrows ref_normal) * nat (mcols ref_normal) \<and>
         mat_at3 ref_normal (int row) (int col) 0
           = Some (f4x (scaled ! (row * nat (mcols ref_normal) + col))) \<and>
         mat_at3 ref_normal (int row) (int col) 1
           = Some (f4y (scaled ! (row * nat (mcols ref_normal) + col))) \<and>
         mat_at3 ref_normal (int row) (int col) 2
           = Some (f4z (scaled ! (row * nat (mcols ref_normal) + col))) \<and>
         (if up then mat_at ref_cost (int row) (int col) else mat_at ref_depth (int row) (int col))
           = Some (f4w (scaled ! (row * nat (mcols ref_normal) + col)))"
proof -
  let ?W = "nat (mcols ref_normal)" and ?H = "nat (mrows ref_normal)"
  define val where "val r c =
      then_do (in_range (mat_at3 ref_normal (int r) (int c) 0)) (\<lambda>x.
      then_do (in_range (mat_at3 ref_normal (int r) (int c) 1)) (\<lambda>y.
      then_do (in_range (mat_at3 ref_normal (int r) (int c) 2)) (\<lambda>z.
      then_do (in_range (if up then mat_at ref_cost (int r) (int c)
                         else mat_at ref_depth (int r) (int c))) (\<lambda>w.
        Inr (make_float4 x y z w)))))" for r c
  have loops: "for_range ?W (\<lambda>col. for_range ?H (\<lambda>row buf.
                 then_do (val row col) (\<lambda>v. Inr (buf[row * ?W + col := v]))))
                 (replicate (?H * ?W) junk) = Inr scaled"
    using run
    by (simp add: load_scaled_hypotheses_def Let_def val_def then_do_assoc then_do_simps)
  from fill_loops[OF loops _ rc]
  have len: "length scaled = ?H * ?W" and v: "val row col = Inr (scaled ! (row * ?W + col))"
    by simp_all
  from v obtain x y z w where
    "mat_at3 ref_normal (int row) (int col) 0 = Some x"
    "mat_at3 ref_normal (int row) (int col) 1 = Some y"
    "mat_at3 ref_normal (int row) (int col) 2 = Some z"
    "(if up then mat_at ref_cost (int row) (int col) else mat_at ref_depth (int row) (int col))
       = Some w"
    "scaled ! (row * ?W + col) = make_float4 x y z w"
    unfolding val_def then_do_Inr in_range_Inr by auto
  with len show ?thesis by simp
qed

lemma hierarchy_w_slot:
  assumes run: "hierarchy_initialization junk fs dense_folder problem h = Inr h'"
  shows "\<exists>r1 ref_depth r2 ref_normal r3 ref_cost.
           readDepthDmb fs (result_folder dense_folder problem @ ''/depths.dmb'') empty_mat
             = Inr (r1, ref_depth) \<and>
           readNormalDmb fs (result_folder dense_folder problem @ ''/normals.dmb'') empty_mat
             = Inr (r2, ref_normal) \<and>
           readDepthDmb fs (result_folder dense_folder problem @ ''/costs.dmb'') empty_mat
             = Inr (r3, ref_cost) \<and>
           (\<forall>row col. row < nat (mrows ref_normal) \<longrightarrow> col < nat (mcols ref_normal) \<longrightarrow>
              (if upsample (params h') then mat_at ref_cost (int row) (int col)
               else mat_at ref_depth (int row) (int col))
                = Some (f4w (scaled_plane_hypotheses_host h' ! (row * nat (mcols ref_normal) + col))))"
proof -
  from run have ne: "images h \<noteq> []" "cameras h \<noteq> []"
    by (auto simp: hierarchy_initialization_def split: if_splits)
  from run ne obtain r1 ref_depth r2 ref_normal r3 ref_cost scaled hyps
    where d: "readDepthDmb fs (result_folder dense_folder problem @ ''/depths.dmb'') empty_mat
                = Inr (r1, ref_depth)"
      and n: "readNormalDmb fs (result_folder dense_folder problem @ ''/normals.dmb'') empty_mat
                = Inr (r2, ref_normal)"
      and c: "readDepthDmb fs (result_folder dense_folder problem @ ''/costs.dmb'') empty_mat
                = Inr (r3, ref_cost)"
      and sc: "load_scaled_hypotheses junk
                 (mcols ref_normal \<noteq> mrows (images h ! 0) \<or> mrows ref_normal \<noteq> mcols (images h ! 0))
                 ref_depth ref_normal ref_cost = Inr scaled"
      and h': "h' = h\<lparr>depths := depths h @ [ref_depth],
                 params := (if mcols ref_normal \<noteq> mrows (images h ! 0) \<or>
                               mrows ref_normal \<noteq> mcols (images h ! 0)
                            then (params h)\<lparr>upsample := True, scaled_cols := mcols ref_normal,
                                               scaled_rows := mrows ref_normal\<rparr>
                            else (params h)\<lparr>upsample := False\<rparr>),
                 scaled_plane_hypotheses_host := scaled, plane_hypotheses_host := hyps\<rparr>"
    by (auto simp: hierarchy_initialization_def then_do_prod_Inr then_do_Inr Let_def)
  have up: "upsample (params h') =
          (mcols ref_normal \<noteq> mrows (images h ! 0) \<or> mrows ref_normal \<noteq> mcols (images h ! 0))"
    unfolding h' by simp
  have sh: "scaled_plane_hypotheses_host h' = scaled" unfolding h' by simp
  have "(if upsample (params h') then mat_at ref_cost (int row) (int col)
         else mat_at ref_depth (int row) (int col))
          = Some (f4w (scaled_plane_hypotheses_host h' ! (row * nat (mcols ref_normal) + col)))"
    if "row < nat (mrows ref_normal)" "col < nat (mcols ref_normal)" for row col
    using scaled_hypothesis_components[OF sc that] unfolding up sh by simp
  with d n c show ?thesis by blast
qed

section \<open>Properties of the device buffers\<close>

text \<open>With every mode off, each of the ten allocations of the set-up is released once by
  the destructor.\<close>

lemma plain_lifetime_balanced:
  "next_alloc plain_lifetime = 10 \<and> freed_twice plain_lifetime = [] \<and>
   never_freed plain_lifetime = [] \<and> live plain_lifetime = []"
  by code_simp

text \<open>
  Claim C9 with hierarchy mode on. The set-up allocates \<open>pre_costs_cuda\<close> a second time in
  the hierarchy branch (allocation 11) and so loses the first allocation (number 6); the
  destructor releases \<open>pre_costs_cuda\<close> once among the common buffers and once more in its
  hierarchy branch. Allocation 11 is released twice and allocation 6 never.
\<close>

theorem hierarchy_lifetime_unbalanced:
  "next_alloc hierarchy_lifetime = 12 \<and>
   ptr hierarchy_lifetime pre_costs_cuda = Some 11 \<and>
   freed_twice hierarchy_lifetime = [11] \<and>
   never_freed hierarchy_lifetime = [6] \<and>
   live hierarchy_lifetime = [6]"
  by code_simp

text \<open>When \<open>CudaSpaceRelease\<close> has run, the destructor releases the same seven buffers
  again: neither routine resets a pointer.\<close>

lemma released_lifetime_unbalanced:
  "freed_twice released_lifetime = [2, 3, 4, 5, 7, 8, 9]"
  by code_simp

text \<open>One allocation and one release on a device that is written out.\<close>

lemma device_alloc_lit:
  "device_alloc m \<lparr>next_alloc = n, live = l, ptr = p, freed = f\<rparr>
     = \<lparr>next_alloc = Suc n, live = n # l, ptr = p(m := Some n), freed = f\<rparr>"
  by (simp add: device_alloc_def)

lemma device_free_lit:
  "device_free m \<lparr>next_alloc = n, live = l, ptr = p, freed = f\<rparr>
     = \<lparr>next_alloc = n, live = (case p m of None \<Rightarrow> l | Some a \<Rightarrow> removeAll a l), ptr = p,
        freed = f @ [p m]\<rparr>"
  by (simp add: device_free_def split: option.split)

text \<open>
  With planar priors on, and every set-up and release routine run once before the
  destructor: the seven buffers of \<open>CudaSpaceRelease\<close> and the two prior buffers of
  \<open>CudaPlanarPriorRelease\<close> are released a second time by the destructor, and
  \<open>confidences_cuda\<close> (allocation 12) is released by no routine.
\<close>

lemma full_lifetime_value:
  "next_alloc full_lifetime = 15 \<and>
   freed full_lifetime =
     [Some 13, Some 14, Some 11, Some 2, Some 3, Some 4, Some 5, Some 7, Some 8, Some 9,
      Some 10, Some 1, Some 0, Some 2, Some 3, Some 4, Some 5, Some 6, Some 7, Some 8, Some 9,
      Some 13, Some 14] \<and>
   live full_lifetime = [12] \<and> ptr full_lifetime confidences_cuda = Some 12"
  by (simp add: full_lifetime_def HPM_destructor_def CudaSpaceRelease_def
      CudaPlanarPriorRelease_def CudaPlanarPriorInitialization_device_def
      CudaConfidenceInitialization_device_def CudaCannyInitialization_device_def
      TextureInformationInitialization_device_def CudaSpaceInitialization_device_def
      fresh_device_def params_0_def Let_def device_alloc_lit device_free_lit)

lemma full_lifetime_unbalanced:
  "freed_twice full_lifetime = [2, 3, 4, 5, 7, 8, 9, 13, 14] \<and> never_freed full_lifetime = [12]"
  unfolding freed_twice_def never_freed_def using full_lifetime_value
  by (simp add: upt_rec)

section \<open>Properties of the support-point selection\<close>

text \<open>A tile appends at most two points.\<close>

lemma tile_points_at_most_two:
  assumes "tile_points costs confidences texture width height col row pts = Inr pts'"
  shows "\<exists>new. pts' = pts @ new \<and> length new \<le> 2"
  using assms
  by (auto simp: tile_points_def Let_def then_do_Inr split: if_splits)

text \<open>
  Claim C2 at a tile of textured pixels in which one pixel has the adjusted cost 0.05 and
  the 24 others 0.5: the routine returns that pixel twice. Both trackers run over every
  pixel of the tile; the texture field only sets \<open>texture_flag\<close>, which nothing reads.
\<close>

theorem textured_tile_two_points:
  "map (\<lambda>(c, k, t). adjusted_cost c k t)
       (zip (mdata costs_5x5) (zip (mdata confidences_5x5) (mdata texture_5x5)))
     = replicate 13 (1 / 2) @ [5 / 100] @ replicate 11 (1 / 2) \<and>
   GetSupportPoints_Classify_Check camera_5x5 costs_5x5 confidences_5x5 texture_5x5 1
     = Inr [(3, 2), (3, 2)]"
  by code_simp

text \<open>With the same costs and confidences and no textured pixel at all, the result is the
  same two points, one of them from the tracker of textured pixels.\<close>

lemma untextured_tile_two_points:
  "GetSupportPoints_Classify_Check camera_5x5 costs_5x5 confidences_5x5 texture_none_5x5 1
     = Inr [(3, 2), (3, 2)]"
  by code_simp

text \<open>
  The texture field has no influence on the result: two runs that differ in the texture
  field only, and both return, return the same support points. Two loops that keep a
  relation between their states step by step keep it to the end.
\<close>

lemma fold_then_do_Inl: "fold (\<lambda>i r. then_do r (f i)) xs (Inl e) = Inl e"
  by (induction xs) (simp_all add: then_do_simps)

lemma fold_then_do_rel:
  assumes "fold (\<lambda>i r. then_do r (f i)) xs (Inr s) = Inr t"
    and "fold (\<lambda>i r. then_do r (g i)) xs (Inr s') = Inr t'"
    and "R s s'"
    and "\<And>x a a' b b'. R a a' \<Longrightarrow> f x a = Inr b \<Longrightarrow> g x a' = Inr b' \<Longrightarrow> R b b'"
  shows "R t t'"
  using assms
proof (induction xs arbitrary: s s')
  case Nil
  then show ?case by simp
next
  case (Cons x xs)
  from Cons.prems(1) obtain b where b: "f x s = Inr b"
    by (cases "f x s") (simp_all add: then_do_simps fold_then_do_Inl)
  from Cons.prems(2) obtain b' where b': "g x s' = Inr b'"
    by (cases "g x s'") (simp_all add: then_do_simps fold_then_do_Inl)
  have R: "R b b'" using Cons.prems(3) b b' by (rule Cons.prems(4))
  from Cons.prems(1) b have 1: "fold (\<lambda>i r. then_do r (f i)) xs (Inr b) = Inr t"
    by (simp add: then_do_simps)
  from Cons.prems(2) b' have 2: "fold (\<lambda>i r. then_do r (g i)) xs (Inr b') = Inr t'"
    by (simp add: then_do_simps)
  show ?case by (rule Cons.IH[OF 1 2 R]) (rule Cons.prems(4))
qed

lemma tile_pixel_texture:
  assumes "same_trackers s s'"
    and "tile_pixel costs confidences texture c r s = Inr b"
    and "tile_pixel costs confidences texture' c r s' = Inr b'"
  shows "same_trackers b b'"
  using assms
  by (auto simp: tile_pixel_def then_do_Inr in_range_Inr Let_def same_trackers_def
      split: if_splits)

lemma tile_points_texture:
  assumes "tile_points costs confidences texture width height col row pts = Inr ps"
    and "tile_points costs confidences texture' width height col row pts = Inr ps'"
  shows "ps = ps'"
proof -
  let ?init = "\<lparr>min_cost_no_texture = 2, min_cost_texture = 2, temp_point_no_texture = (0, 0),
               temp_point_texture = (0, 0), texture_flag = False\<rparr>"
  let ?cb = "min width (col + 5)" and ?rb = "min height (row + 5)"
  from assms(1) obtain s
    where s: "for_from col ?cb (\<lambda>c. for_from row ?rb (\<lambda>r.
                tile_pixel costs confidences texture c r)) ?init = Inr s"
      and ps: "ps = (let p1 = (if min_cost_texture s < 1 / 10 then pts @ [temp_point_texture s] else pts)
                    in (if min_cost_no_texture s < 1 / 10 then p1 @ [temp_point_no_texture s] else p1))"
    by (auto simp: tile_points_def Let_def then_do_Inr)
  from assms(2) obtain s'
    where s': "for_from col ?cb (\<lambda>c. for_from row ?rb (\<lambda>r.
                tile_pixel costs confidences texture' c r)) ?init = Inr s'"
      and ps': "ps' = (let p1 = (if min_cost_texture s' < 1 / 10 then pts @ [temp_point_texture s'] else pts)
                    in (if min_cost_no_texture s' < 1 / 10 then p1 @ [temp_point_no_texture s'] else p1))"
    by (auto simp: tile_points_def Let_def then_do_Inr)
  have rows: "same_trackers b b'"
    if "same_trackers a a'"
      "for_from row ?rb (\<lambda>r. tile_pixel costs confidences texture c r) a = Inr b"
      "for_from row ?rb (\<lambda>r. tile_pixel costs confidences texture' c r) a' = Inr b'"
    for c a a' b b'
    by (rule fold_then_do_rel[where R = same_trackers
          and f = "\<lambda>r. tile_pixel costs confidences texture c r"
          and g = "\<lambda>r. tile_pixel costs confidences texture' c r",
          OF that(2,3)[unfolded for_from_def] that(1)])
       (rule tile_pixel_texture)
  have init: "same_trackers ?init ?init" by (simp add: same_trackers_def)
  have "same_trackers s s'"
    by (rule fold_then_do_rel[where R = same_trackers
          and f = "\<lambda>c. for_from row ?rb (\<lambda>r. tile_pixel costs confidences texture c r)"
          and g = "\<lambda>c. for_from row ?rb (\<lambda>r. tile_pixel costs confidences texture' c r)",
          OF s[unfolded for_from_def[of col]] s'[unfolded for_from_def[of col]] init])
       (rule rows)
  with ps ps' show ?thesis by (simp add: same_trackers_def)
qed

lemma support_points_ignore_texture:
  assumes "GetSupportPoints_Classify_Check cam costs confidences texture hpm_factor = Inr ps"
    and "GetSupportPoints_Classify_Check cam costs confidences texture' hpm_factor = Inr ps'"
  shows "ps = ps'"
proof -
  let ?w = "nat (ctrunc (real_of_int (cam_width cam) * hpm_factor))"
  let ?h = "nat (ctrunc (real_of_int (cam_height cam) * hpm_factor))"
  have rows: "b = b'"
    if "a = a'"
      "for_step 0 ?h 5 (\<lambda>row. tile_points costs confidences texture ?w ?h col row) a = Inr b"
      "for_step 0 ?h 5 (\<lambda>row. tile_points costs confidences texture' ?w ?h col row) a' = Inr b'"
    for col and a a' b b' :: "(int \<times> int) list"
    by (rule fold_then_do_rel[where R = "(=)"
          and f = "\<lambda>row. tile_points costs confidences texture ?w ?h col row"
          and g = "\<lambda>row. tile_points costs confidences texture' ?w ?h col row",
          OF that(2,3)[unfolded for_step_def] that(1)])
       (auto dest: tile_points_texture)
  have nil: "([] :: (int \<times> int) list) = []" by simp
  show ?thesis
    by (rule fold_then_do_rel[where R = "(=)"
          and f = "\<lambda>col. for_step 0 ?h 5 (\<lambda>row. tile_points costs confidences texture ?w ?h col row)"
          and g = "\<lambda>col. for_step 0 ?h 5 (\<lambda>row. tile_points costs confidences texture' ?w ?h col row)",
          OF assms(1)[unfolded GetSupportPoints_Classify_Check_def Let_def for_step_def[of 0 ?w]]
             assms(2)[unfolded GetSupportPoints_Classify_Check_def Let_def for_step_def[of 0 ?w]] nil])
       (rule rows)
qed

section \<open>Properties of the plane fit\<close>






















end
